theory Spec2Isabelle
  imports Complex_Main
begin

section \<open>Data model of the workflow orchestrator\<close>

text \<open>
  The development embeds \<^verbatim>\<open>server/utils/orchestrator.py\<close>. The Redis client, the
  wall clock, the optional progress callback and the four agents are the outside world:
  they are the fields of an environment record, each a function on a world state
  \<open>'w\<close> that the orchestrator threads through its calls in program order. Logging is
  left out (it neither raises nor is observed).
\<close>

datatype ProcessingStage =
    QUEUED
  | DATA_EXTRACTION
  | INTERPRETATION
  | TRIAGE_ASSESSMENT
  | REPORT_GENERATION
  | QUALITY_VALIDATION
  | COMPLETED
  | FAILED

text \<open>The \<^verbatim>\<open>.value\<close> of an enum member.\<close>

fun stage_value :: "ProcessingStage \<Rightarrow> string" where
  "stage_value QUEUED = ''queued''"
| "stage_value DATA_EXTRACTION = ''data_extraction''"
| "stage_value INTERPRETATION = ''interpretation''"
| "stage_value TRIAGE_ASSESSMENT = ''triage_assessment''"
| "stage_value REPORT_GENERATION = ''report_generation''"
| "stage_value QUALITY_VALIDATION = ''quality_validation''"
| "stage_value COMPLETED = ''completed''"
| "stage_value FAILED = ''failed''"

text \<open>What an f-string prints for an enum member.\<close>

fun stage_str :: "ProcessingStage \<Rightarrow> string" where
  "stage_str QUEUED = ''ProcessingStage.QUEUED''"
| "stage_str DATA_EXTRACTION = ''ProcessingStage.DATA_EXTRACTION''"
| "stage_str INTERPRETATION = ''ProcessingStage.INTERPRETATION''"
| "stage_str TRIAGE_ASSESSMENT = ''ProcessingStage.TRIAGE_ASSESSMENT''"
| "stage_str REPORT_GENERATION = ''ProcessingStage.REPORT_GENERATION''"
| "stage_str QUALITY_VALIDATION = ''ProcessingStage.QUALITY_VALIDATION''"
| "stage_str COMPLETED = ''ProcessingStage.COMPLETED''"
| "stage_str FAILED = ''ProcessingStage.FAILED''"

text \<open>
  Payloads are JSON values; a Python \<^verbatim>\<open>Dict[str, Any]\<close> is an association list in
  insertion order.
\<close>

datatype json =
    JNull
  | JBool bool
  | JInt int
  | JStr string
  | JList "json list"
  | JDict "(string \<times> json) list"

type_synonym pydict = "(string \<times> json) list"

text \<open>\<^verbatim>\<open>d.get(k, default)\<close>\<close>

definition dict_get :: "pydict \<Rightarrow> string \<Rightarrow> json \<Rightarrow> json" where
  "dict_get d k dflt = (case map_of d k of None \<Rightarrow> dflt | Some v \<Rightarrow> v)"

text \<open>\<^verbatim>\<open>d[k] = v\<close>: an existing key keeps its place, a new key goes last.\<close>

fun dict_set :: "'k \<Rightarrow> 'v \<Rightarrow> ('k \<times> 'v) list \<Rightarrow> ('k \<times> 'v) list" where
  "dict_set k v [] = [(k, v)]"
| "dict_set k v (p # ps) = (if fst p = k then (k, v) # ps else p # dict_set k v ps)"

text \<open>
  A \<^verbatim>\<open>datetime\<close> is a point on an integer time line, and the difference of two of them
  (\<^verbatim>\<open>total_seconds()\<close>) an integer number of its units; \<^verbatim>\<open>isoformat()\<close> is injective and
  is left implicit.
\<close>

type_synonym datetime = int

text \<open>
  Exceptions, each with its \<^verbatim>\<open>str(e)\<close>: \<^verbatim>\<open>asyncio.TimeoutError\<close>, which the inner
  handler treats apart, and every other subclass of \<^verbatim>\<open>Exception\<close>.
\<close>

datatype exc = AsyncioTimeoutError string | OtherException string

fun str_exc :: "exc \<Rightarrow> string" where
  "str_exc (AsyncioTimeoutError m) = m"
| "str_exc (OtherException m) = m"

subsection \<open>WorkflowStatus\<close>

record WorkflowStatus =
  request_id :: string
  stage :: ProcessingStage
  progress :: int
  current_step :: string
  started_at :: datetime
  completed_at :: "datetime option"
  error_message :: "string option"
  stage_results :: "(string \<times> pydict) list"
  processing_time :: int

text \<open>The dictionary built by \<^verbatim>\<open>to_dict\<close>.\<close>

record status_dict =
  d_request_id :: string
  d_stage :: string
  d_progress :: int
  d_current_step :: string
  d_started_at :: datetime
  d_completed_at :: "datetime option"
  d_processing_time :: int
  d_error_message :: "string option"

text \<open>\<^verbatim>\<open>WorkflowStatus.__init__\<close>, with the clock reading it takes.\<close>

definition WorkflowStatus_init :: "string \<Rightarrow> datetime \<Rightarrow> WorkflowStatus" where
  "WorkflowStatus_init rid now =
     \<lparr> request_id = rid, stage = QUEUED, progress = 0,
       current_step = ''Queued for processing'', started_at = now,
       completed_at = None, error_message = None, stage_results = [],
       processing_time = 0 \<rparr>"

text \<open>
  \<^verbatim>\<open>update_stage\<close> reads the clock only when the new stage is \<^verbatim>\<open>COMPLETED\<close>.
\<close>

definition update_stage ::
  "('w \<Rightarrow> datetime \<times> 'w) \<Rightarrow> ProcessingStage \<Rightarrow> int \<Rightarrow> string \<Rightarrow>
     WorkflowStatus \<Rightarrow> 'w \<Rightarrow> WorkflowStatus \<times> 'w" where
  "update_stage clock stg prog step_description st w =
     (let st1 = st\<lparr> stage := stg, progress := prog, current_step := step_description \<rparr>
      in if stg = COMPLETED
         then (let (now, w') = clock w
               in (st1\<lparr> completed_at := Some now,
                        processing_time := now - started_at st1 \<rparr>, w'))
         else (st1, w))"

definition set_error ::
  "('w \<Rightarrow> datetime \<times> 'w) \<Rightarrow> string \<Rightarrow> WorkflowStatus \<Rightarrow> 'w \<Rightarrow> WorkflowStatus \<times> 'w" where
  "set_error clock msg st w =
     (let (now, w') = clock w
      in (st\<lparr> stage := FAILED, error_message := Some msg,
               completed_at := Some now,
               processing_time := now - started_at st \<rparr>, w'))"

definition to_dict :: "WorkflowStatus \<Rightarrow> status_dict" where
  "to_dict st =
     \<lparr> d_request_id = request_id st,
       d_stage = stage_value (stage st),
       d_progress = progress st,
       d_current_step = current_step st,
       d_started_at = started_at st,
       d_completed_at = completed_at st,
       d_processing_time = processing_time st,
       d_error_message = error_message st \<rparr>"

subsection \<open>The stage registry\<close>

datatype agent = data_specialist | interpreter | report_writer | triage_specialist

record workflow_step =
  step_stage :: ProcessingStage
  step_progress :: int
  step_description :: string
  step_agent :: agent
  step_method :: string
  step_timeout :: int

definition workflow_steps :: "workflow_step list" where
  "workflow_steps =
     [ \<lparr> step_stage = DATA_EXTRACTION, step_progress = 20,
         step_description = ''Extracting and standardizing PFT data'',
         step_agent = data_specialist, step_method = ''process_file'',
         step_timeout = 60 \<rparr>,
       \<lparr> step_stage = INTERPRETATION, step_progress = 40,
         step_description = ''Analyzing PFT results'',
         step_agent = interpreter, step_method = ''interpret_pft_results'',
         step_timeout = 90 \<rparr>,
       \<lparr> step_stage = TRIAGE_ASSESSMENT, step_progress = 60,
         step_description = ''Assessing clinical priority'',
         step_agent = triage_specialist, step_method = ''assess_triage_priority'',
         step_timeout = 60 \<rparr>,
       \<lparr> step_stage = REPORT_GENERATION, step_progress = 80,
         step_description = ''Generating professional report'',
         step_agent = report_writer, step_method = ''generate_full_report'',
         step_timeout = 120 \<rparr>,
       \<lparr> step_stage = QUALITY_VALIDATION, step_progress = 95,
         step_description = ''Validating report quality'',
         step_agent = report_writer, step_method = ''validate_report_quality'',
         step_timeout = 30 \<rparr> ]"

subsection \<open>The workflow context and the envelopes\<close>

record workflow_data =
  wd_request_id :: string
  file_content :: string
  file_type :: string
  patient_demographics :: pydict
  historical_data :: "json list"
  priority :: string
  extracted_data :: pydict
  wd_interpretation :: pydict
  triage_assessment :: pydict
  report_data :: pydict
  quality_assessment :: pydict

record processing_metadata =
  workflow_version :: string
  agents_used :: "string list"
  pm_processing_time :: int

record report =
  report_id :: string
  r_patient_demographics :: pydict
  test_date :: datetime
  raw_data :: json
  predicted_values :: json
  percent_predicted :: json
  quality_metrics :: json
  r_interpretation :: pydict
  triage :: pydict
  report_content :: pydict
  r_quality_assessment :: pydict
  generated_by :: string
  generated_at :: datetime
  r_processing_metadata :: processing_metadata

record final_result =
  fr_request_id :: string
  fr_status :: string
  fr_processing_time :: int
  fr_report :: report
  fr_workflow_status :: status_dict

record error_response =
  er_request_id :: string
  er_status :: string
  er_error_message :: string
  er_processing_time :: int
  er_workflow_status :: status_dict
  partial_results :: "(string \<times> pydict) list"

datatype envelope = Success final_result | Failure error_response

definition create_error_response ::
  "string \<Rightarrow> string \<Rightarrow> WorkflowStatus \<Rightarrow> error_response" where
  "create_error_response rid error_msg st =
     \<lparr> er_request_id = rid,
       er_status = ''failed'',
       er_error_message = error_msg,
       er_processing_time = processing_time st,
       er_workflow_status = to_dict st,
       partial_results = stage_results st \<rparr>"

text \<open>
  \<^verbatim>\<open>_create_final_result\<close> reads the clock twice, for \<^verbatim>\<open>test_date\<close> and then for
  \<^verbatim>\<open>generated_at\<close>, in the order the dictionary literal evaluates its values.
\<close>

definition create_final_result ::
  "('w \<Rightarrow> datetime \<times> 'w) \<Rightarrow> workflow_step list \<Rightarrow> string \<Rightarrow> workflow_data \<Rightarrow>
     WorkflowStatus \<Rightarrow> 'w \<Rightarrow> final_result \<times> 'w" where
  "create_final_result clock steps rid wd st w =
     (let (now1, w1) = clock w;
          (now2, w2) = clock w1
      in (\<lparr> fr_request_id = rid,
            fr_status = ''completed'',
            fr_processing_time = processing_time st,
            fr_report =
              \<lparr> report_id = rid,
                r_patient_demographics = patient_demographics wd,
                test_date = now1,
                raw_data = dict_get (extracted_data wd) ''raw_data'' (JDict []),
                predicted_values = dict_get (extracted_data wd) ''predicted_values'' (JDict []),
                percent_predicted = dict_get (extracted_data wd) ''percent_predicted'' (JDict []),
                quality_metrics = dict_get (extracted_data wd) ''quality_metrics'' (JDict []),
                r_interpretation = wd_interpretation wd,
                triage = triage_assessment wd,
                report_content = report_data wd,
                r_quality_assessment = quality_assessment wd,
                generated_by = ''AutoPFTReport AI'',
                generated_at = now2,
                r_processing_metadata =
                  \<lparr> workflow_version = ''1.0'',
                    agents_used = map (\<lambda>step. stage_value (step_stage step)) steps,
                    pm_processing_time = processing_time st \<rparr> \<rparr>,
            fr_workflow_status = to_dict st \<rparr>, w2))"

definition update_workflow_data ::
  "ProcessingStage \<Rightarrow> pydict \<Rightarrow> workflow_data \<Rightarrow> workflow_data" where
  "update_workflow_data stg result wd =
     (if stg = DATA_EXTRACTION then wd\<lparr> extracted_data := result \<rparr>
      else if stg = INTERPRETATION then wd\<lparr> wd_interpretation := result \<rparr>
      else if stg = TRIAGE_ASSESSMENT then wd\<lparr> triage_assessment := result \<rparr>
      else if stg = REPORT_GENERATION then wd\<lparr> report_data := result \<rparr>
      else if stg = QUALITY_VALIDATION then wd\<lparr> quality_assessment := result \<rparr>
      else wd)"

section \<open>The environment and the instrumented run\<close>

text \<open>
  The arguments \<^verbatim>\<open>_execute_workflow_step\<close> hands to the agent method of each stage,
  in the order of the keyword arguments. The date string of \<^verbatim>\<open>test_date\<close> is kept as
  the clock reading it is formatted from.
\<close>

datatype call_args =
    ProcessFileArgs string string
  | InterpretArgs json json json pydict "json list"
  | TriageArgs pydict pydict json json "json list"
  | ReportArgs pydict json json json pydict pydict "json list" datetime
  | ValidateArgs pydict

text \<open>
  What an agent call does once awaited to its end: the seconds it takes, and the payload
  it returns or the exception it raises.
\<close>

record agent_reply =
  elapsed :: rat
  reply :: "exc + pydict"

text \<open>What \<^verbatim>\<open>redis_client.set\<close> stores: the serialised status or the serialised report.\<close>

datatype stored = StatusJson status_dict | ReportJson report

text \<open>
  The outside world. A Redis call or the callback answers \<open>None\<close> when it returns and
  \<open>Some e\<close> when it raises \<open>e\<close>. \<open>agent_method\<close> is \<^verbatim>\<open>getattr(agent, name)(...)\<close>.
\<close>

record 'w env =
  datetime_now :: "'w \<Rightarrow> datetime \<times> 'w"
  redis_publish :: "string \<Rightarrow> status_dict \<Rightarrow> 'w \<Rightarrow> exc option \<times> 'w"
  redis_set :: "string \<Rightarrow> stored \<Rightarrow> 'w \<Rightarrow> exc option \<times> 'w"
  agent_method :: "agent \<Rightarrow> string \<Rightarrow> call_args \<Rightarrow> 'w \<Rightarrow> agent_reply \<times> 'w"

type_synonym 'w callback = "status_dict \<Rightarrow> 'w \<Rightarrow> exc option \<times> 'w"

text \<open>
  The run is instrumented with a trace: one event for every call of \<^verbatim>\<open>update_stage\<close> or
  \<^verbatim>\<open>set_error\<close> (with the status it leaves), and one for every call that leaves the
  orchestrator (with its arguments and its answer), in program order.
\<close>

datatype event =
    Transition WorkflowStatus
  | Publish string status_dict "exc option"
  | Set string stored "exc option"
  | Callback status_dict "exc option"
  | Invoke ProcessingStage agent string call_args agent_reply

record 'w mstate =
  world :: 'w
  trace :: "event list"
  status :: WorkflowStatus

definition update_stage_s ::
  "'w env \<Rightarrow> ProcessingStage \<Rightarrow> int \<Rightarrow> string \<Rightarrow> 'w mstate \<Rightarrow> 'w mstate" where
  "update_stage_s env stg prog descr s =
     (let (st', w') = update_stage (datetime_now env) stg prog descr (status s) (world s)
      in s\<lparr> world := w', trace := trace s @ [Transition st'], status := st' \<rparr>)"

definition set_error_s :: "'w env \<Rightarrow> string \<Rightarrow> 'w mstate \<Rightarrow> 'w mstate" where
  "set_error_s env msg s =
     (let (st', w') = set_error (datetime_now env) msg (status s) (world s)
      in s\<lparr> world := w', trace := trace s @ [Transition st'], status := st' \<rparr>)"

text \<open>\<^verbatim>\<open>await redis_client.publish(f"pft:progress:{request_id}", json.dumps(status.to_dict()))\<close>\<close>

definition publish_progress :: "'w env \<Rightarrow> string \<Rightarrow> 'w mstate \<Rightarrow> exc option \<times> 'w mstate" where
  "publish_progress env rid s =
     (let d = to_dict (status s);
          (r, w') = redis_publish env (''pft:progress:'' @ rid) d (world s)
      in (r, s\<lparr> world := w', trace := trace s @ [Publish (''pft:progress:'' @ rid) d r] \<rparr>))"

text \<open>\<^verbatim>\<open>await redis_client.set(f"pft:processing:{request_id}", json.dumps(status.to_dict()))\<close>\<close>

definition persist_status :: "'w env \<Rightarrow> string \<Rightarrow> 'w mstate \<Rightarrow> exc option \<times> 'w mstate" where
  "persist_status env rid s =
     (let d = to_dict (status s);
          (r, w') = redis_set env (''pft:processing:'' @ rid) (StatusJson d) (world s)
      in (r, s\<lparr> world := w',
                trace := trace s @ [Set (''pft:processing:'' @ rid) (StatusJson d) r] \<rparr>))"

text \<open>\<^verbatim>\<open>await redis_client.set(f"pft:report:{request_id}", json.dumps(final_result.get("report", {})))\<close>\<close>

definition persist_report ::
  "'w env \<Rightarrow> string \<Rightarrow> final_result \<Rightarrow> 'w mstate \<Rightarrow> exc option \<times> 'w mstate" where
  "persist_report env rid fin s =
     (let (r, w') = redis_set env (''pft:report:'' @ rid) (ReportJson (fr_report fin)) (world s)
      in (r, s\<lparr> world := w',
                trace := trace s @ [Set (''pft:report:'' @ rid) (ReportJson (fr_report fin)) r] \<rparr>))"

text \<open>\<^verbatim>\<open>if progress_callback: await progress_callback(status.to_dict())\<close>\<close>

definition call_progress_callback ::
  "'w callback option \<Rightarrow> 'w mstate \<Rightarrow> exc option \<times> 'w mstate" where
  "call_progress_callback cb s =
     (case cb of
        None \<Rightarrow> (None, s)
      | Some f \<Rightarrow>
          (let d = to_dict (status s);
               (r, w') = f d (world s)
           in (r, s\<lparr> world := w', trace := trace s @ [Callback d r] \<rparr>)))"

definition invoke_agent ::
  "'w env \<Rightarrow> ProcessingStage \<Rightarrow> agent \<Rightarrow> string \<Rightarrow> call_args \<Rightarrow> 'w mstate \<Rightarrow>
     agent_reply \<times> 'w mstate" where
  "invoke_agent env stg ag method_name args s =
     (let (r, w') = agent_method env ag method_name args (world s)
      in (r, s\<lparr> world := w', trace := trace s @ [Invoke stg ag method_name args r] \<rparr>))"

text \<open>
  \<^verbatim>\<open>_execute_workflow_step\<close>. The first stage calls \<^verbatim>\<open>process_file\<close> by name, the others
  look the method of the step up. An unknown stage raises \<^verbatim>\<open>ValueError\<close> at once, with
  no agent called.
\<close>

definition execute_workflow_step ::
  "'w env \<Rightarrow> workflow_step \<Rightarrow> workflow_data \<Rightarrow> 'w mstate \<Rightarrow> agent_reply \<times> 'w mstate" where
  "execute_workflow_step env step wd s =
     (let stg = step_stage step; ag = step_agent step; method_name = step_method step
      in if stg = DATA_EXTRACTION then
           invoke_agent env stg ag ''process_file''
             (ProcessFileArgs (file_content wd) (file_type wd)) s
         else if stg = INTERPRETATION then
           invoke_agent env stg ag method_name
             (InterpretArgs
                (dict_get (extracted_data wd) ''raw_data'' (JDict []))
                (dict_get (extracted_data wd) ''predicted_values'' (JDict []))
                (dict_get (extracted_data wd) ''percent_predicted'' (JDict []))
                (patient_demographics wd)
                (historical_data wd)) s
         else if stg = TRIAGE_ASSESSMENT then
           invoke_agent env stg ag method_name
             (TriageArgs
                (wd_interpretation wd)
                (patient_demographics wd)
                (dict_get (extracted_data wd) ''raw_data'' (JDict []))
                (dict_get (extracted_data wd) ''percent_predicted'' (JDict []))
                (historical_data wd)) s
         else if stg = REPORT_GENERATION then
           (let (now, w') = datetime_now env (world s)
            in invoke_agent env stg ag method_name
                 (ReportArgs
                    (patient_demographics wd)
                    (dict_get (extracted_data wd) ''raw_data'' (JDict []))
                    (dict_get (extracted_data wd) ''predicted_values'' (JDict []))
                    (dict_get (extracted_data wd) ''percent_predicted'' (JDict []))
                    (wd_interpretation wd)
                    (triage_assessment wd)
                    (historical_data wd)
                    now) (s\<lparr> world := w' \<rparr>))
         else if stg = QUALITY_VALIDATION then
           invoke_agent env stg ag method_name (ValidateArgs (report_data wd)) s
         else
           (\<lparr> elapsed = 0,
              reply = Inl (OtherException (''Unknown workflow stage: '' @ stage_str stg)) \<rparr>, s))"

text \<open>
  \<^verbatim>\<open>asyncio.wait_for(coro, timeout)\<close>: a call that would take longer than the timeout is
  given up and \<^verbatim>\<open>asyncio.TimeoutError\<close> is raised; otherwise the call's own outcome.
\<close>

definition wait_for :: "agent_reply \<Rightarrow> int \<Rightarrow> exc + pydict" where
  "wait_for r timeout =
     (if of_int timeout < elapsed r then Inl (AsyncioTimeoutError []) else reply r)"

text \<open>The body of the inner \<^verbatim>\<open>try\<close>, for one step.\<close>

definition try_step ::
  "'w env \<Rightarrow> 'w callback option \<Rightarrow> string \<Rightarrow> workflow_step \<Rightarrow> workflow_data \<Rightarrow>
     'w mstate \<Rightarrow> (exc + workflow_data) \<times> 'w mstate" where
  "try_step env cb rid step wd s =
     (let s1 = update_stage_s env (step_stage step) (step_progress step)
                 (step_description step) s;
          (r1, s2) = publish_progress env rid s1
      in case r1 of
           Some e \<Rightarrow> (Inl e, s2)
         | None \<Rightarrow>
            (let (r2, s3) = persist_status env rid s2
             in case r2 of
                  Some e \<Rightarrow> (Inl e, s3)
                | None \<Rightarrow>
                   (let (r3, s4) = call_progress_callback cb s3
                    in case r3 of
                         Some e \<Rightarrow> (Inl e, s4)
                       | None \<Rightarrow>
                          (let (rep, s5) = execute_workflow_step env step wd s4
                           in case wait_for rep (step_timeout step) of
                                Inl e \<Rightarrow> (Inl e, s5)
                              | Inr result \<Rightarrow>
                                 (Inr (update_workflow_data (step_stage step) result wd),
                                  s5\<lparr> status := (status s5)
                                       \<lparr> stage_results :=
                                           dict_set (stage_value (step_stage step)) result
                                             (stage_results (status s5)) \<rparr> \<rparr>)))))"

text \<open>
  The two inner \<^verbatim>\<open>except\<close> clauses. An exception raised by the \<^verbatim>\<open>set\<close> inside a
  handler leaves the loop for the outer \<^verbatim>\<open>try\<close>.
\<close>

definition step_error_msg :: "workflow_step \<Rightarrow> exc \<Rightarrow> string" where
  "step_error_msg step e =
     (case e of
        AsyncioTimeoutError m \<Rightarrow> ''Timeout in step '' @ stage_value (step_stage step)
      | OtherException m \<Rightarrow> ''Error in step '' @ stage_value (step_stage step) @ '': '' @ m)"

datatype loop_result = Fallthrough workflow_data | Return error_response | Raise exc

definition except_step ::
  "'w env \<Rightarrow> string \<Rightarrow> workflow_step \<Rightarrow> exc \<Rightarrow> 'w mstate \<Rightarrow> loop_result \<times> 'w mstate" where
  "except_step env rid step e s =
     (let error_msg = step_error_msg step e;
          s1 = set_error_s env error_msg s;
          (r, s2) = persist_status env rid s1
      in case r of
           Some e' \<Rightarrow> (Raise e', s2)
         | None \<Rightarrow> (Return (create_error_response rid error_msg (status s2)), s2))"

text \<open>The \<^verbatim>\<open>for step in self.workflow_steps\<close> loop.\<close>

fun run_steps ::
  "'w env \<Rightarrow> 'w callback option \<Rightarrow> string \<Rightarrow> workflow_step list \<Rightarrow> workflow_data \<Rightarrow>
     'w mstate \<Rightarrow> loop_result \<times> 'w mstate" where
  "run_steps env cb rid [] wd s = (Fallthrough wd, s)"
| "run_steps env cb rid (step # rest) wd s =
     (case try_step env cb rid step wd s of
        (Inr wd', s') \<Rightarrow> run_steps env cb rid rest wd' s'
      | (Inl e, s') \<Rightarrow> except_step env rid step e s')"

text \<open>The code after the loop, up to \<^verbatim>\<open>return final_result\<close>.\<close>

definition complete_workflow ::
  "'w env \<Rightarrow> 'w callback option \<Rightarrow> workflow_step list \<Rightarrow> string \<Rightarrow> workflow_data \<Rightarrow>
     'w mstate \<Rightarrow> (exc + final_result) \<times> 'w mstate" where
  "complete_workflow env cb steps rid wd s =
     (let s1 = update_stage_s env COMPLETED 100 ''Processing completed successfully'' s;
          (r1, s2) = publish_progress env rid s1
      in case r1 of
           Some e \<Rightarrow> (Inl e, s2)
         | None \<Rightarrow>
            (let (r2, s3) = persist_status env rid s2
             in case r2 of
                  Some e \<Rightarrow> (Inl e, s3)
                | None \<Rightarrow>
                   (let (r3, s4) = call_progress_callback cb s3
                    in case r3 of
                         Some e \<Rightarrow> (Inl e, s4)
                       | None \<Rightarrow>
                          (let (fin, w') = create_final_result (datetime_now env) steps rid wd
                                             (status s4) (world s4);
                               (r4, s5) = persist_report env rid fin (s4\<lparr> world := w' \<rparr>)
                           in case r4 of
                                Some e \<Rightarrow> (Inl e, s5)
                              | None \<Rightarrow> (Inr fin, s5)))))"

text \<open>The outer \<^verbatim>\<open>except Exception\<close>; its own \<^verbatim>\<open>set\<close> is not guarded.\<close>

definition except_workflow ::
  "'w env \<Rightarrow> string \<Rightarrow> exc \<Rightarrow> 'w mstate \<Rightarrow> (exc + envelope) \<times> 'w mstate" where
  "except_workflow env rid e s =
     (let error_msg = ''Unexpected error in workflow: '' @ str_exc e;
          s1 = set_error_s env error_msg s;
          (r, s2) = persist_status env rid s1
      in case r of
           Some e' \<Rightarrow> (Inl e', s2)
         | None \<Rightarrow> (Inr (Failure (create_error_response rid error_msg (status s2))), s2))"

text \<open>
  The status object made on entry (\<^verbatim>\<open>WorkflowStatus(request_id)\<close> reads the clock) and
  the dictionary \<^verbatim>\<open>workflow_data\<close> made at the start of the outer \<^verbatim>\<open>try\<close>;
  \<^verbatim>\<open>historical_data or []\<close> turns \<^verbatim>\<open>None\<close> into the empty list.
\<close>

definition initial_state :: "'w env \<Rightarrow> string \<Rightarrow> 'w \<Rightarrow> 'w mstate" where
  "initial_state env rid w =
     (let (now, w0) = datetime_now env w
      in \<lparr> world = w0, trace = [], status = WorkflowStatus_init rid now \<rparr>)"

definition initial_workflow_data ::
  "string \<Rightarrow> string \<Rightarrow> string \<Rightarrow> pydict \<Rightarrow> json list option \<Rightarrow> string \<Rightarrow> workflow_data" where
  "initial_workflow_data rid fcontent ftype demographics historical prio =
     \<lparr> wd_request_id = rid,
       file_content = fcontent,
       file_type = ftype,
       patient_demographics = demographics,
       historical_data = (case historical of None \<Rightarrow> [] | Some h \<Rightarrow> h),
       priority = prio,
       extracted_data = [],
       wd_interpretation = [],
       triage_assessment = [],
       report_data = [],
       quality_assessment = [] \<rparr>"

text \<open>
  \<^verbatim>\<open>process_pft_request\<close> over a registry \<open>steps\<close>. The result is the envelope returned,
  or the exception that leaves the method; the final machine state holds the status
  object and the trace.
\<close>

definition process_steps ::
  "'w env \<Rightarrow> workflow_step list \<Rightarrow> string \<Rightarrow> string \<Rightarrow> string \<Rightarrow> pydict \<Rightarrow>
     json list option \<Rightarrow> string \<Rightarrow> 'w callback option \<Rightarrow> 'w \<Rightarrow> (exc + envelope) \<times> 'w mstate" where
  "process_steps env steps rid fcontent ftype demographics historical prio cb w =
     (case run_steps env cb rid steps
             (initial_workflow_data rid fcontent ftype demographics historical prio)
             (initial_state env rid w) of
        (Return resp, s1) \<Rightarrow> (Inr (Failure resp), s1)
      | (Raise e, s1) \<Rightarrow> except_workflow env rid e s1
      | (Fallthrough wd', s1) \<Rightarrow>
         (case complete_workflow env cb steps rid wd' s1 of
            (Inr fin, s2) \<Rightarrow> (Inr (Success fin), s2)
          | (Inl e, s2) \<Rightarrow> except_workflow env rid e s2))"

definition process_pft_request ::
  "'w env \<Rightarrow> string \<Rightarrow> string \<Rightarrow> string \<Rightarrow> pydict \<Rightarrow> json list option \<Rightarrow> string \<Rightarrow>
     'w callback option \<Rightarrow> 'w \<Rightarrow> (exc + envelope) \<times> 'w mstate" where
  "process_pft_request env = process_steps env workflow_steps"

section \<open>Vocabulary for traces\<close>

text \<open>The event of the callback, if there is one.\<close>

definition callback_events :: "'w callback option \<Rightarrow> status_dict \<Rightarrow> exc option \<Rightarrow> event list" where
  "callback_events cb d r = (case cb of None \<Rightarrow> [] | Some f \<Rightarrow> [Callback d r])"

text \<open>The stages that \<^verbatim>\<open>_execute_workflow_step\<close> has a branch for.\<close>

definition known_stage :: "ProcessingStage \<Rightarrow> bool" where
  "known_stage stg \<longleftrightarrow> stg \<in> {DATA_EXTRACTION, INTERPRETATION, TRIAGE_ASSESSMENT, REPORT_GENERATION, QUALITY_VALIDATION}"

text \<open>The statuses left by the calls of \<^verbatim>\<open>update_stage\<close> and \<^verbatim>\<open>set_error\<close>, in order.\<close>

fun transitions :: "event list \<Rightarrow> WorkflowStatus list" where
  "transitions [] = []"
| "transitions (Transition st # evs) = st # transitions evs"
| "transitions (ev # evs) = transitions evs"

text \<open>
  A property of every event of a trace, given the events before it and those after it.
\<close>

definition each_event :: "(event list \<Rightarrow> event \<Rightarrow> event list \<Rightarrow> bool) \<Rightarrow> event list \<Rightarrow> bool" where
  "each_event P tr \<longleftrightarrow> (\<forall>pre ev post. tr = pre @ ev # post \<longrightarrow> P pre ev post)"

text \<open>
  The events before a point of the trace end with the announcement of a step: the status
  was moved to the stage of the step with its progress weight and description, that
  snapshot was published and then stored, both calls returned, and nothing but the
  callback came after.
\<close>

definition announced :: "string \<Rightarrow> workflow_step \<Rightarrow> event list \<Rightarrow> bool" where
  "announced rid step pre \<longleftrightarrow>
     (\<exists>pre' st cbs.
        pre = pre' @ [Transition st,
                      Publish (''pft:progress:'' @ rid) (to_dict st) None,
                      Set (''pft:processing:'' @ rid) (StatusJson (to_dict st)) None] @ cbs
        \<and> (cbs = [] \<or> cbs = [Callback (to_dict st) None])
        \<and> stage st = step_stage step
        \<and> progress st = step_progress step
        \<and> current_step st = step_description step)"

definition invoke_announced :: "string \<Rightarrow> workflow_step list \<Rightarrow> event list \<Rightarrow> event \<Rightarrow> bool" where
  "invoke_announced rid steps pre ev =
     (case ev of
        Invoke stg ag m a rep \<Rightarrow> (\<exists>step\<in>set steps. step_stage step = stg \<and> announced rid step pre)
      | _ \<Rightarrow> True)"

text \<open>The snapshots handed to \<^verbatim>\<open>redis_client.publish\<close>, in order.\<close>

fun published :: "event list \<Rightarrow> status_dict list" where
  "published [] = []"
| "published (Publish t d r # evs) = d # published evs"
| "published (ev # evs) = published evs"

text \<open>
  What follows a transition in the trace: a transition to \<open>FAILED\<close> is followed by
  the \<^verbatim>\<open>set\<close> of its snapshot; any other transition by the \<^verbatim>\<open>publish\<close> of its
  snapshot and, if that returns, by the \<^verbatim>\<open>set\<close> of the same snapshot.
\<close>

definition handed_on :: "string \<Rightarrow> event \<Rightarrow> event list \<Rightarrow> bool" where
  "handed_on rid ev post =
     (case ev of
        Transition st \<Rightarrow>
          (if stage st = FAILED
           then (\<exists>r post'. post = Set (''pft:processing:'' @ rid) (StatusJson (to_dict st)) r # post')
           else (\<exists>r post'. post = Publish (''pft:progress:'' @ rid) (to_dict st) r # post'
                  \<and> (r = None \<longrightarrow>
                        (\<exists>r' post''. post' = Set (''pft:processing:'' @ rid)
                                                (StatusJson (to_dict st)) r' # post''))))
      | _ \<Rightarrow> True)"

text \<open>The two fields of the status that C3 relates.\<close>

definition progress_and_stage :: "WorkflowStatus \<Rightarrow> int \<times> ProcessingStage" where
  "progress_and_stage st = (progress st, stage st)"

definition hundred_iff_completed :: "WorkflowStatus \<Rightarrow> bool" where
  "hundred_iff_completed st \<longleftrightarrow>
     (stage st \<noteq> FAILED \<longrightarrow> (progress st = 100 \<longleftrightarrow> stage st = COMPLETED))"

text \<open>
  The invariant of a run: the progress values of the successive statuses never go
  down, stay within 0 and 100, and each status that is not failed has progress 100
  exactly when it is completed.
\<close>

definition progress_invariant :: "'w mstate \<Rightarrow> bool" where
  "progress_invariant s \<longleftrightarrow>
     sorted (0 # map progress (transitions (trace s)) @ [progress (status s)])
     \<and> progress (status s) \<le> 100
     \<and> (\<forall>st\<in>set (transitions (trace s)). hundred_iff_completed st)
     \<and> hundred_iff_completed (status s)"

text \<open>The agent calls of a trace, in order: the stage and what the agent did.\<close>

fun invocations :: "event list \<Rightarrow> (ProcessingStage \<times> agent_reply) list" where
  "invocations [] = []"
| "invocations (Invoke stg ag m a rep # evs) = (stg, rep) # invocations evs"
| "invocations (ev # evs) = invocations evs"

text \<open>A call to Redis or to the callback that raised.\<close>

fun raised :: "event \<Rightarrow> bool" where
  "raised (Publish t d r) = (r \<noteq> None)"
| "raised (Set k v r) = (r \<noteq> None)"
| "raised (Callback d r) = (r \<noteq> None)"
| "raised ev = False"

text \<open>
  An agent call is timely for a step when it is a call for the stage of the step and
  \<^verbatim>\<open>wait_for\<close> hands a payload back within the timeout of the step.
\<close>

definition timely :: "workflow_step \<Rightarrow> ProcessingStage \<times> agent_reply \<Rightarrow> bool" where
  "timely step call \<longleftrightarrow>
     fst call = step_stage step \<and> (\<exists>p. wait_for (snd call) (step_timeout step) = Inr p)"

text \<open>The entry of \<^verbatim>\<open>stage_results\<close> that a returning agent call leaves.\<close>

fun returned :: "ProcessingStage \<times> agent_reply \<Rightarrow> string \<times> pydict" where
  "returned (stg, rep) = (stage_value stg, (case reply rep of Inr p \<Rightarrow> p | Inl e \<Rightarrow> []))"

text \<open>
  The events of a step that ends in one of the inner \<^verbatim>\<open>except\<close> clauses with the
  exception \<open>e\<close>: the transition to the stage of the step, then either the publish
  raises, or the write raises, or the callback raises, or all three return and the agent
  call times out or raises.
\<close>

definition failing_block ::
  "string \<Rightarrow> 'w callback option \<Rightarrow> workflow_step \<Rightarrow> exc \<Rightarrow> event list \<Rightarrow> bool" where
  "failing_block rid cb step e blk \<longleftrightarrow>
     (\<exists>st1. stage st1 = step_stage step \<and> progress st1 = step_progress step
        \<and> current_step st1 = step_description step
        \<and> (blk = [Transition st1, Publish (''pft:progress:'' @ rid) (to_dict st1) (Some e)]
           \<or> blk = [Transition st1, Publish (''pft:progress:'' @ rid) (to_dict st1) None,
                     Set (''pft:processing:'' @ rid) (StatusJson (to_dict st1)) (Some e)]
           \<or> blk = [Transition st1, Publish (''pft:progress:'' @ rid) (to_dict st1) None,
                     Set (''pft:processing:'' @ rid) (StatusJson (to_dict st1)) None,
                     Callback (to_dict st1) (Some e)]
           \<or> (\<exists>m a rep.
                 blk = [Transition st1, Publish (''pft:progress:'' @ rid) (to_dict st1) None,
                        Set (''pft:processing:'' @ rid) (StatusJson (to_dict st1)) None]
                       @ callback_events cb (to_dict st1) None
                       @ [Invoke (step_stage step) (step_agent step) m a rep]
                 \<and> wait_for rep (step_timeout step) = Inl e)))"

text \<open>The exception a call to Redis or to the callback raised, if it did.\<close>

fun failure_of :: "event \<Rightarrow> exc option" where
  "failure_of (Publish t d r) = r"
| "failure_of (Set k v r) = r"
| "failure_of (Callback d r) = r"
| "failure_of ev = None"

text \<open>The status snapshot a call to Redis or to the callback was given.\<close>

fun snapshot :: "event \<Rightarrow> status_dict option" where
  "snapshot (Publish t d r) = Some d"
| "snapshot (Set k (StatusJson d) r) = Some d"
| "snapshot (Callback d r) = Some d"
| "snapshot ev = None"

text \<open>
  The \<^verbatim>\<open>status\<close> entry of what \<^verbatim>\<open>process_pft_request\<close> returns, if it returns; and a
  summary of a run: that entry and the agent calls made.
\<close>

definition envelope_status :: "exc + envelope \<Rightarrow> string option" where
  "envelope_status res =
     (case res of
        Inl e \<Rightarrow> None
      | Inr (Success fin) \<Rightarrow> Some (fr_status fin)
      | Inr (Failure resp) \<Rightarrow> Some (er_status resp))"

definition run_summary ::
  "(exc + envelope) \<times> 'w mstate \<Rightarrow> string option \<times> (ProcessingStage \<times> agent_reply) list" where
  "run_summary r = (envelope_status (fst r), invocations (trace (snd r)))"

section \<open>Sample environments\<close>

text \<open>
  Concrete worlds for evaluating runs: the world is a counter that the clock reads and
  advances; Redis and the agents answer by the arguments of the call alone.
\<close>

definition tick_clock :: "nat \<Rightarrow> datetime \<times> nat" where
  "tick_clock w = (int w, Suc w)"

definition scripted_env ::
  "(status_dict \<Rightarrow> exc option) \<Rightarrow> (stored \<Rightarrow> exc option) \<Rightarrow> (agent \<Rightarrow> string \<Rightarrow> agent_reply) \<Rightarrow>
     nat env" where
  "scripted_env pub st ag =
     \<lparr> datetime_now = tick_clock,
       redis_publish = (\<lambda>topic d w. (pub d, w)),
       redis_set = (\<lambda>key v w. (st v, w)),
       agent_method = (\<lambda>a m args w. (ag a m, w)) \<rparr>"

definition quick_agents :: "agent \<Rightarrow> string \<Rightarrow> agent_reply" where
  "quick_agents a m = \<lparr> elapsed = 1, reply = Inr [(''by'', JStr m)] \<rparr>"


text \<open>The interpreter needs 91 seconds.\<close>

definition slow_interpreter_env :: "nat env" where
  "slow_interpreter_env =
     scripted_env (\<lambda>d. None) (\<lambda>v. None)
       (\<lambda>a m. if a = interpreter then \<lparr> elapsed = 91, reply = Inr [(''by'', JStr m)] \<rparr>
              else quick_agents a m)"


text \<open>Publishing the \<^verbatim>\<open>completed\<close> snapshot raises; everything before it goes well.\<close>

definition late_publish_env :: "nat env" where
  "late_publish_env =
     scripted_env
       (\<lambda>d. if d_stage d = ''completed'' then Some (OtherException ''channel closed'') else None)
       (\<lambda>v. None) quick_agents"

text \<open>Publishing the first snapshot raises; the store works.\<close>

definition early_publish_env :: "nat env" where
  "early_publish_env =
     scripted_env
       (\<lambda>d. if d_stage d = ''data_extraction'' then Some (OtherException ''channel closed'')
            else None)
       (\<lambda>v. None) quick_agents"

text \<open>Every write to the store raises.\<close>

definition store_down_env :: "nat env" where
  "store_down_env =
     scripted_env (\<lambda>d. None) (\<lambda>v. Some (OtherException ''connection refused'')) quick_agents"

text \<open>Every agent needs 61 seconds.\<close>

definition slow_extraction_env :: "nat env" where
  "slow_extraction_env =
     scripted_env (\<lambda>d. None) (\<lambda>v. None)
       (\<lambda>a m. \<lparr> elapsed = 61, reply = Inr [(''by'', JStr m)] \<rparr>)"

text \<open>The interpreter needs 91 seconds, and the store refuses the failed snapshot.\<close>

definition slow_interpreter_store_fails_env :: "nat env" where
  "slow_interpreter_store_fails_env =
     scripted_env (\<lambda>d. None)
       (\<lambda>v. case v of
              StatusJson d \<Rightarrow>
                if d_stage d = ''failed'' then Some (OtherException ''connection lost'') else None
            | ReportJson r \<Rightarrow> None)
       (\<lambda>a m. if a = interpreter then \<lparr> elapsed = 91, reply = Inr [(''by'', JStr m)] \<rparr>
              else quick_agents a m)"

text \<open>One request, with no callback.\<close>

definition sample_run :: "nat env \<Rightarrow> (exc + envelope) \<times> nat mstate" where
  "sample_run env =
     process_pft_request env ''req-1'' ''FVC: 3.5'' ''txt'' [(''age'', JInt 40)] None
       ''routine'' None 0"

text \<open>A status that has completed, and a context to aggregate.\<close>

definition done_status :: WorkflowStatus where
  "done_status =
     fst (update_stage tick_clock COMPLETED 100 ''Processing completed successfully''
            (WorkflowStatus_init ''req-1'' 0) 10)"

definition sample_data :: workflow_data where
  "sample_data =
     \<lparr> wd_request_id = ''req-1'',
       file_content = ''FVC: 3.5'',
       file_type = ''txt'',
       patient_demographics = [(''age'', JInt 40)],
       historical_data = [],
       priority = ''routine'',
       extracted_data = [(''raw_data'', JDict [(''FVC'', JInt 3)])],
       wd_interpretation = [(''pattern'', JStr ''normal'')],
       triage_assessment = [(''level'', JStr ''routine'')],
       report_data = [(''summary'', JStr ''ok'')],
       quality_assessment = [(''score'', JInt 9)] \<rparr>"

section \<open>What each part of the run does to the status and the trace\<close>

lemma update_stage_fields [simp]:
  "stage (fst (update_stage clock stg p d st w)) = stg"
  "progress (fst (update_stage clock stg p d st w)) = p"
  "current_step (fst (update_stage clock stg p d st w)) = d"
  "stage_results (fst (update_stage clock stg p d st w)) = stage_results st"
  "request_id (fst (update_stage clock stg p d st w)) = request_id st"
  "started_at (fst (update_stage clock stg p d st w)) = started_at st"
  "error_message (fst (update_stage clock stg p d st w)) = error_message st"
  by (simp_all add: update_stage_def Let_def split_def)

lemma set_error_fields [simp]:
  "stage (fst (set_error clock msg st w)) = FAILED"
  "progress (fst (set_error clock msg st w)) = progress st"
  "current_step (fst (set_error clock msg st w)) = current_step st"
  "stage_results (fst (set_error clock msg st w)) = stage_results st"
  "request_id (fst (set_error clock msg st w)) = request_id st"
  "started_at (fst (set_error clock msg st w)) = started_at st"
  "error_message (fst (set_error clock msg st w)) = Some msg"
  by (simp_all add: set_error_def Let_def split_def)

lemma update_stage_s_shape:
  "status (update_stage_s env stg p d s) = fst (update_stage (datetime_now env) stg p d (status s) (world s))"
  "trace (update_stage_s env stg p d s) = trace s @ [Transition (fst (update_stage (datetime_now env) stg p d (status s) (world s)))]"
  by (simp_all add: update_stage_s_def Let_def split_def)

lemma set_error_s_shape:
  "status (set_error_s env msg s) = fst (set_error (datetime_now env) msg (status s) (world s))"
  "trace (set_error_s env msg s) = trace s @ [Transition (fst (set_error (datetime_now env) msg (status s) (world s)))]"
  by (simp_all add: set_error_s_def Let_def split_def)

lemma publish_progress_shape:
  assumes "publish_progress env rid s = (r, s')"
  shows "status s' = status s"
    and "trace s' = trace s @ [Publish (''pft:progress:'' @ rid) (to_dict (status s)) r]"
  using assms by (auto simp: publish_progress_def Let_def split_def)

lemma persist_status_shape:
  assumes "persist_status env rid s = (r, s')"
  shows "status s' = status s"
    and "trace s' = trace s @ [Set (''pft:processing:'' @ rid) (StatusJson (to_dict (status s))) r]"
  using assms by (auto simp: persist_status_def Let_def split_def)

lemma persist_report_shape:
  assumes "persist_report env rid fin s = (r, s')"
  shows "status s' = status s"
    and "trace s' = trace s @ [Set (''pft:report:'' @ rid) (ReportJson (fr_report fin)) r]"
  using assms by (auto simp: persist_report_def Let_def split_def)

lemma call_progress_callback_shape:
  assumes "call_progress_callback cb s = (r, s')"
  shows "status s' = status s"
    and "trace s' = trace s @ callback_events cb (to_dict (status s)) r"
    and "cb = None \<Longrightarrow> r = None"
  using assms
  by (auto simp: call_progress_callback_def callback_events_def Let_def split_def split: option.splits)

lemma execute_workflow_step_shape:
  assumes "execute_workflow_step env step wd s = (rep, s')"
  shows "status s' = status s"
    and "known_stage (step_stage step) \<Longrightarrow>
           \<exists>m args. trace s' = trace s @ [Invoke (step_stage step) (step_agent step) m args rep]"
    and "\<not> known_stage (step_stage step) \<Longrightarrow> trace s' = trace s \<and>
           rep = \<lparr> elapsed = 0, reply = Inl (OtherException (''Unknown workflow stage: '' @ stage_str (step_stage step))) \<rparr>"
  using assms
  by (auto simp: execute_workflow_step_def invoke_agent_def known_stage_def Let_def split_def split: if_splits)

lemma try_step_cases:
  fixes env :: "'w env" and s s' :: "'w mstate" and step :: workflow_step
  defines "st1 \<equiv> fst (update_stage (datetime_now env) (step_stage step) (step_progress step)
                        (step_description step) (status s) (world s))"
  assumes run: "try_step env cb rid step wd s = (r, s')"
  obtains
    (publish_raised) e where
      "r = Inl e" "status s' = st1"
      "trace s' = trace s @ [Transition st1, Publish (''pft:progress:'' @ rid) (to_dict st1) (Some e)]"
  | (persist_raised) e where
      "r = Inl e" "status s' = st1"
      "trace s' = trace s @ [Transition st1, Publish (''pft:progress:'' @ rid) (to_dict st1) None,
         Set (''pft:processing:'' @ rid) (StatusJson (to_dict st1)) (Some e)]"
  | (callback_raised) e where
      "r = Inl e" "status s' = st1"
      "trace s' = trace s @ [Transition st1, Publish (''pft:progress:'' @ rid) (to_dict st1) None,
         Set (''pft:processing:'' @ rid) (StatusJson (to_dict st1)) None,
         Callback (to_dict st1) (Some e)]"
  | (unknown_stage) e where
      "\<not> known_stage (step_stage step)"
      "r = Inl e" "status s' = st1"
      "trace s' = trace s @ [Transition st1, Publish (''pft:progress:'' @ rid) (to_dict st1) None,
         Set (''pft:processing:'' @ rid) (StatusJson (to_dict st1)) None]
         @ callback_events cb (to_dict st1) None"
  | (invoke_failed) m args rep e where
      "known_stage (step_stage step)"
      "wait_for rep (step_timeout step) = Inl e"
      "r = Inl e" "status s' = st1"
      "trace s' = trace s @ [Transition st1, Publish (''pft:progress:'' @ rid) (to_dict st1) None,
         Set (''pft:processing:'' @ rid) (StatusJson (to_dict st1)) None]
         @ callback_events cb (to_dict st1) None
         @ [Invoke (step_stage step) (step_agent step) m args rep]"
  | (invoke_returned) m args rep result where
      "known_stage (step_stage step)"
      "wait_for rep (step_timeout step) = Inr result"
      "r = Inr (update_workflow_data (step_stage step) result wd)"
      "status s' = st1\<lparr> stage_results :=
          dict_set (stage_value (step_stage step)) result (stage_results st1) \<rparr>"
      "trace s' = trace s @ [Transition st1, Publish (''pft:progress:'' @ rid) (to_dict st1) None,
         Set (''pft:processing:'' @ rid) (StatusJson (to_dict st1)) None]
         @ callback_events cb (to_dict st1) None
         @ [Invoke (step_stage step) (step_agent step) m args rep]"
proof -
  define s1 where "s1 = update_stage_s env (step_stage step) (step_progress step)
                          (step_description step) s"
  have s1: "status s1 = st1" "trace s1 = trace s @ [Transition st1]"
    by (simp_all add: s1_def st1_def update_stage_s_shape)
  obtain r1 s2 where p1: "publish_progress env rid s1 = (r1, s2)"
    by (cases "publish_progress env rid s1")
  note s2 = publish_progress_shape [OF p1]
  show thesis
  proof (cases r1)
    case (Some e)
    with run p1 have "r = Inl e" "s' = s2"
      by (simp_all add: try_step_def s1_def [symmetric])
    with Some s1 s2 show thesis
      by (intro publish_raised [of e]) simp_all
  next
    case None
    note r1 = this
    obtain r2 s3 where p2: "persist_status env rid s2 = (r2, s3)"
      by (cases "persist_status env rid s2")
    note s3 = persist_status_shape [OF p2]
    show thesis
    proof (cases r2)
      case (Some e)
      with run p1 p2 r1 have "r = Inl e" "s' = s3"
        by (simp_all add: try_step_def s1_def [symmetric])
      with Some s1 s2 s3 r1 show thesis
        by (intro persist_raised [of e]) simp_all
    next
      case None
      note r2 = this
      obtain r3 s4 where p3: "call_progress_callback cb s3 = (r3, s4)"
        by (cases "call_progress_callback cb s3")
      note s4 = call_progress_callback_shape [OF p3]
      show thesis
      proof (cases r3)
        case (Some e)
        with s4(3) obtain f where f: "cb = Some f" by (cases cb) auto
        from Some run p1 p2 p3 r1 r2 have "r = Inl e" "s' = s4"
          by (simp_all add: try_step_def s1_def [symmetric])
        with Some s1 s2 s3 s4 r1 r2 f show thesis
          by (intro callback_raised [of e]) (simp_all add: callback_events_def)
      next
        case None
        note r3 = this
        obtain rep s5 where p4: "execute_workflow_step env step wd s4 = (rep, s5)"
          by (cases "execute_workflow_step env step wd s4")
        note s5 = execute_workflow_step_shape [OF p4]
        have pre: "trace s4 = trace s @ [Transition st1,
            Publish (''pft:progress:'' @ rid) (to_dict st1) None,
            Set (''pft:processing:'' @ rid) (StatusJson (to_dict st1)) None]
            @ callback_events cb (to_dict st1) None"
          and st4: "status s4 = st1"
          using s1 s2 s3 s4 r1 r2 r3 by simp_all
        show thesis
        proof (cases "known_stage (step_stage step)")
          case False
          from s5(3) [OF False] have rep: "trace s5 = trace s4"
            "rep = \<lparr> elapsed = 0, reply = Inl (OtherException (''Unknown workflow stage: '' @ stage_str (step_stage step))) \<rparr>"
            by simp_all
          obtain e where w: "wait_for rep (step_timeout step) = Inl e"
            by (cases "wait_for rep (step_timeout step)") (auto simp: rep wait_for_def split: if_splits)
          with run p1 p2 p3 p4 r1 r2 r3 have "r = Inl e" "s' = s5"
            by (simp_all add: try_step_def s1_def [symmetric])
          with False rep pre st4 s5(1) show thesis
            by (intro unknown_stage [of e]) simp_all
        next
          case True
          from s5(2) [OF True] obtain m args where
            tr5: "trace s5 = trace s4 @ [Invoke (step_stage step) (step_agent step) m args rep]"
            by blast
          show thesis
          proof (cases "wait_for rep (step_timeout step)")
            case (Inl e)
            with run p1 p2 p3 p4 r1 r2 r3 have "r = Inl e" "s' = s5"
              by (simp_all add: try_step_def s1_def [symmetric])
            with Inl True tr5 pre st4 s5(1) show thesis
              by (intro invoke_failed [of rep e m args]) simp_all
          next
            case (Inr result)
            with run p1 p2 p3 p4 r1 r2 r3
            have "r = Inr (update_workflow_data (step_stage step) result wd)"
              "s' = s5\<lparr> status := (status s5)\<lparr> stage_results :=
                     dict_set (stage_value (step_stage step)) result (stage_results (status s5)) \<rparr> \<rparr>"
              by (simp_all add: try_step_def s1_def [symmetric])
            with Inr True tr5 pre st4 s5(1) show thesis
              by (intro invoke_returned [of rep result m args]) simp_all
          qed
        qed
      qed
    qed
  qed
qed

lemma except_step_shape:
  fixes env :: "'w env" and s s' :: "'w mstate" and step :: workflow_step and e :: exc
  defines "stF \<equiv> fst (set_error (datetime_now env) (step_error_msg step e) (status s) (world s))"
  assumes run: "except_step env rid step e s = (out, s')"
  shows "status s' = stF"
    and "\<exists>r. trace s' = trace s @ [Transition stF,
                  Set (''pft:processing:'' @ rid) (StatusJson (to_dict stF)) r]
             \<and> out = (case r of
                        None \<Rightarrow> Return (create_error_response rid (step_error_msg step e) stF)
                      | Some e' \<Rightarrow> Raise e')"
proof -
  define s1 where "s1 = set_error_s env (step_error_msg step e) s"
  have s1: "status s1 = stF" "trace s1 = trace s @ [Transition stF]"
    by (simp_all add: s1_def stF_def set_error_s_shape)
  obtain r s2 where p: "persist_status env rid s1 = (r, s2)"
    by (cases "persist_status env rid s1")
  note s2 = persist_status_shape [OF p]
  from run p have out: "s' = s2"
    "out = (case r of None \<Rightarrow> Return (create_error_response rid (step_error_msg step e) (status s2))
                    | Some e' \<Rightarrow> Raise e')"
    unfolding s1_def by (auto simp: except_step_def Let_def split: option.splits)
  show "status s' = stF" using out s1 s2 by simp
  show "\<exists>r. trace s' = trace s @ [Transition stF,
                  Set (''pft:processing:'' @ rid) (StatusJson (to_dict stF)) r]
             \<and> out = (case r of
                        None \<Rightarrow> Return (create_error_response rid (step_error_msg step e) stF)
                      | Some e' \<Rightarrow> Raise e')"
    using out s1 s2 by (intro exI [of _ r]) (simp split: option.splits)
qed

lemma except_workflow_shape:
  fixes env :: "'w env" and s s' :: "'w mstate" and e :: exc
  defines "stF \<equiv> fst (set_error (datetime_now env) (''Unexpected error in workflow: '' @ str_exc e)
                         (status s) (world s))"
  assumes run: "except_workflow env rid e s = (res, s')"
  shows "status s' = stF"
    and "\<exists>r. trace s' = trace s @ [Transition stF,
                  Set (''pft:processing:'' @ rid) (StatusJson (to_dict stF)) r]
             \<and> res = (case r of
                        None \<Rightarrow> Inr (Failure (create_error_response rid
                                   (''Unexpected error in workflow: '' @ str_exc e) stF))
                      | Some e' \<Rightarrow> Inl e')"
proof -
  define s1 where "s1 = set_error_s env (''Unexpected error in workflow: '' @ str_exc e) s"
  have s1: "status s1 = stF" "trace s1 = trace s @ [Transition stF]"
    by (simp_all add: s1_def stF_def set_error_s_shape)
  obtain r s2 where p: "persist_status env rid s1 = (r, s2)"
    by (cases "persist_status env rid s1")
  note s2 = persist_status_shape [OF p]
  from run p have out: "s' = s2"
    "res = (case r of None \<Rightarrow> Inr (Failure (create_error_response rid
                                   (''Unexpected error in workflow: '' @ str_exc e) (status s2)))
                    | Some e' \<Rightarrow> Inl e')"
    unfolding s1_def by (auto simp: except_workflow_def Let_def split: option.splits)
  show "status s' = stF" using out s1 s2 by simp
  show "\<exists>r. trace s' = trace s @ [Transition stF,
                  Set (''pft:processing:'' @ rid) (StatusJson (to_dict stF)) r]
             \<and> res = (case r of
                        None \<Rightarrow> Inr (Failure (create_error_response rid
                                   (''Unexpected error in workflow: '' @ str_exc e) stF))
                      | Some e' \<Rightarrow> Inl e')"
    using out s1 s2 by (intro exI [of _ r]) (simp split: option.splits)
qed

lemma complete_workflow_cases:
  fixes env :: "'w env" and s s' :: "'w mstate"
  defines "stC \<equiv> fst (update_stage (datetime_now env) COMPLETED 100
                        ''Processing completed successfully'' (status s) (world s))"
  assumes run: "complete_workflow env cb steps rid wd s = (r, s')"
  obtains
    (publish_raised) e where
      "r = Inl e" "status s' = stC"
      "trace s' = trace s @ [Transition stC, Publish (''pft:progress:'' @ rid) (to_dict stC) (Some e)]"
  | (persist_raised) e where
      "r = Inl e" "status s' = stC"
      "trace s' = trace s @ [Transition stC, Publish (''pft:progress:'' @ rid) (to_dict stC) None,
         Set (''pft:processing:'' @ rid) (StatusJson (to_dict stC)) (Some e)]"
  | (callback_raised) e where
      "r = Inl e" "status s' = stC"
      "trace s' = trace s @ [Transition stC, Publish (''pft:progress:'' @ rid) (to_dict stC) None,
         Set (''pft:processing:'' @ rid) (StatusJson (to_dict stC)) None,
         Callback (to_dict stC) (Some e)]"
  | (report_raised) e fin w where
      "fin = fst (create_final_result (datetime_now env) steps rid wd stC w)"
      "r = Inl e" "status s' = stC"
      "trace s' = trace s @ [Transition stC, Publish (''pft:progress:'' @ rid) (to_dict stC) None,
         Set (''pft:processing:'' @ rid) (StatusJson (to_dict stC)) None]
         @ callback_events cb (to_dict stC) None
         @ [Set (''pft:report:'' @ rid) (ReportJson (fr_report fin)) (Some e)]"
  | (completed) fin w where
      "fin = fst (create_final_result (datetime_now env) steps rid wd stC w)"
      "r = Inr fin" "status s' = stC"
      "trace s' = trace s @ [Transition stC, Publish (''pft:progress:'' @ rid) (to_dict stC) None,
         Set (''pft:processing:'' @ rid) (StatusJson (to_dict stC)) None]
         @ callback_events cb (to_dict stC) None
         @ [Set (''pft:report:'' @ rid) (ReportJson (fr_report fin)) None]"
proof -
  define s1 where "s1 = update_stage_s env COMPLETED 100 ''Processing completed successfully'' s"
  have s1: "status s1 = stC" "trace s1 = trace s @ [Transition stC]"
    by (simp_all add: s1_def stC_def update_stage_s_shape)
  obtain r1 s2 where p1: "publish_progress env rid s1 = (r1, s2)"
    by (cases "publish_progress env rid s1")
  note s2 = publish_progress_shape [OF p1]
  show thesis
  proof (cases r1)
    case (Some e)
    with run p1 have "r = Inl e" "s' = s2"
      by (simp_all add: complete_workflow_def s1_def [symmetric])
    with Some s1 s2 show thesis
      by (intro publish_raised [of e]) simp_all
  next
    case None
    note r1 = this
    obtain r2 s3 where p2: "persist_status env rid s2 = (r2, s3)"
      by (cases "persist_status env rid s2")
    note s3 = persist_status_shape [OF p2]
    show thesis
    proof (cases r2)
      case (Some e)
      with run p1 p2 r1 have "r = Inl e" "s' = s3"
        by (simp_all add: complete_workflow_def s1_def [symmetric])
      with Some s1 s2 s3 r1 show thesis
        by (intro persist_raised [of e]) simp_all
    next
      case None
      note r2 = this
      obtain r3 s4 where p3: "call_progress_callback cb s3 = (r3, s4)"
        by (cases "call_progress_callback cb s3")
      note s4 = call_progress_callback_shape [OF p3]
      show thesis
      proof (cases r3)
        case (Some e)
        with s4(3) obtain f where f: "cb = Some f" by (cases cb) auto
        from Some run p1 p2 p3 r1 r2 have "r = Inl e" "s' = s4"
          by (simp_all add: complete_workflow_def s1_def [symmetric])
        with Some s1 s2 s3 s4 r1 r2 f show thesis
          by (intro callback_raised [of e]) (simp_all add: callback_events_def)
      next
        case None
        note r3 = this
        have pre: "trace s4 = trace s @ [Transition stC,
            Publish (''pft:progress:'' @ rid) (to_dict stC) None,
            Set (''pft:processing:'' @ rid) (StatusJson (to_dict stC)) None]
            @ callback_events cb (to_dict stC) None"
          and st4: "status s4 = stC"
          using s1 s2 s3 s4 r1 r2 r3 by simp_all
        define fin where "fin = fst (create_final_result (datetime_now env) steps rid wd stC (world s4))"
        define w' where "w' = snd (create_final_result (datetime_now env) steps rid wd stC (world s4))"
        obtain r4 s5 where p4: "persist_report env rid fin (s4\<lparr> world := w' \<rparr>) = (r4, s5)"
          by (cases "persist_report env rid fin (s4\<lparr> world := w' \<rparr>)")
        note s5 = persist_report_shape [OF p4]
        from run p1 p2 p3 p4 r1 r2 r3 st4
        have out: "s' = s5" "r = (case r4 of Some e \<Rightarrow> Inl e | None \<Rightarrow> Inr fin)"
          by (auto simp: complete_workflow_def s1_def [symmetric] fin_def w'_def split_def Let_def
              split: option.splits)
        show thesis
        proof (cases r4)
          case (Some e)
          with out pre st4 s5 show thesis
            by (intro report_raised [of fin "world s4" e]) (simp_all add: fin_def)
        next
          case None
          with out pre st4 s5 show thesis
            by (intro completed [of fin "world s4"]) (simp_all add: fin_def)
        qed
      qed
    qed
  qed
qed

section \<open>Traces, event by event\<close>

lemma each_event_Nil [simp]: "each_event P []"
  by (simp add: each_event_def)

lemma each_event_Cons [simp]:
  "each_event P (ev # tr) \<longleftrightarrow> P [] ev tr \<and> each_event (\<lambda>pre. P (ev # pre)) tr"
proof
  assume h: "each_event P (ev # tr)"
  have "P [] ev tr" using h by (simp add: each_event_def)
  moreover have "each_event (\<lambda>pre. P (ev # pre)) tr"
    unfolding each_event_def
  proof (intro allI impI)
    fix pre ev' post assume "tr = pre @ ev' # post"
    then have "ev # tr = (ev # pre) @ ev' # post" by simp
    with h show "P (ev # pre) ev' post" unfolding each_event_def by blast
  qed
  ultimately show "P [] ev tr \<and> each_event (\<lambda>pre. P (ev # pre)) tr" ..
next
  assume h: "P [] ev tr \<and> each_event (\<lambda>pre. P (ev # pre)) tr"
  show "each_event P (ev # tr)"
    unfolding each_event_def
  proof (intro allI impI)
    fix pre ev' post assume eq: "ev # tr = pre @ ev' # post"
    show "P pre ev' post"
    proof (cases pre)
      case Nil
      with eq h show ?thesis by simp
    next
      case (Cons x pre')
      with eq have "x = ev" "tr = pre' @ ev' # post" by simp_all
      with h Cons show ?thesis by (auto simp: each_event_def)
    qed
  qed
qed





lemma announced_prepend: "announced rid step pre \<Longrightarrow> announced rid step (xs @ pre)"
  unfolding announced_def
  apply (elim exE conjE)
  subgoal for pre' st cbs
    by (rule exI [of _ "xs @ pre'"], rule exI [of _ st], rule exI [of _ cbs]) simp
  done

lemma invoke_announced_simps [simp]:
  "invoke_announced rid steps pre (Transition st)"
  "invoke_announced rid steps pre (Publish t d r)"
  "invoke_announced rid steps pre (Set k v r)"
  "invoke_announced rid steps pre (Callback d r)"
  by (simp_all add: invoke_announced_def)

lemma invoke_announced_prepend:
  "invoke_announced rid steps pre ev \<Longrightarrow> invoke_announced rid steps (xs @ pre) ev"
  by (auto simp: invoke_announced_def announced_prepend split: event.splits)

lemma invoke_announced_mono:
  "invoke_announced rid steps pre ev \<Longrightarrow> set steps \<subseteq> set steps' \<Longrightarrow>
   invoke_announced rid steps' pre ev"
  by (auto simp: invoke_announced_def split: event.splits)


lemma each_event_callback_events [simp]:
  "each_event P (callback_events cb d r) \<longleftrightarrow>
     (cb \<noteq> None \<longrightarrow> P [] (Callback d r) [])"
  by (simp add: callback_events_def split: option.splits)






lemma initial_state_simps [simp]:
  "trace (initial_state env rid w) = []"
  "status (initial_state env rid w) = WorkflowStatus_init rid (fst (datetime_now env w))"
  by (simp_all add: initial_state_def split_def Let_def)

lemma process_steps_cases:
  assumes run: "process_steps env steps rid fc ft dem hist prio cb w = (res, sf)"
  obtains
    (returned) resp where
      "run_steps env cb rid steps (initial_workflow_data rid fc ft dem hist prio)
         (initial_state env rid w) = (Return resp, sf)"
      "res = Inr (Failure resp)"
  | (raised) e s1 where
      "run_steps env cb rid steps (initial_workflow_data rid fc ft dem hist prio)
         (initial_state env rid w) = (Raise e, s1)"
      "except_workflow env rid e s1 = (res, sf)"
  | (completion_raised) wd' s1 e s2 where
      "run_steps env cb rid steps (initial_workflow_data rid fc ft dem hist prio)
         (initial_state env rid w) = (Fallthrough wd', s1)"
      "complete_workflow env cb steps rid wd' s1 = (Inl e, s2)"
      "except_workflow env rid e s2 = (res, sf)"
  | (succeeded) wd' s1 fin where
      "run_steps env cb rid steps (initial_workflow_data rid fc ft dem hist prio)
         (initial_state env rid w) = (Fallthrough wd', s1)"
      "complete_workflow env cb steps rid wd' s1 = (Inr fin, sf)"
      "res = Inr (Success fin)"
  using run
  by (auto simp: process_steps_def split: prod.splits loop_result.splits sum.splits)


lemma transitions_append [simp]: "transitions (xs @ ys) = transitions xs @ transitions ys"
  by (induction xs rule: transitions.induct) simp_all

lemma transitions_callback_events [simp]: "transitions (callback_events cb d r) = []"
  by (simp add: callback_events_def split: option.splits)

lemma published_append [simp]: "published (xs @ ys) = published xs @ published ys"
  by (induction xs rule: published.induct) simp_all

lemma published_callback_events [simp]: "published (callback_events cb d r) = []"
  by (simp add: callback_events_def split: option.splits)

lemma stage_value_failed [simp]:
  "stage_value stg = ''failed'' \<longleftrightarrow> stg = FAILED"
  "''failed'' = stage_value stg \<longleftrightarrow> stg = FAILED"
  by (cases stg; simp)+

lemma d_stage_to_dict [simp]: "d_stage (to_dict st) = stage_value (stage st)"
  by (simp add: to_dict_def)

section \<open>Invariants of a run\<close>



text \<open>Unfolding everything evaluates a run in a sample environment.\<close>

lemmas run_defs = process_pft_request_def process_steps_def workflow_steps_def
  initial_state_def initial_workflow_data_def
  try_step_def except_step_def except_workflow_def complete_workflow_def
  update_stage_s_def set_error_s_def publish_progress_def persist_status_def persist_report_def
  call_progress_callback_def invoke_agent_def execute_workflow_step_def wait_for_def
  update_stage_def set_error_def to_dict_def WorkflowStatus_init_def create_error_response_def
  create_final_result_def update_workflow_data_def step_error_msg_def dict_get_def
  tick_clock_def scripted_env_def quick_agents_def Let_def


section \<open>The context merge\<close>

text \<open>
  C9. For each of the five registry stages, \<^verbatim>\<open>_update_workflow_data\<close> stores the result
  in the slot of that stage (\<open>extracted_data\<close>, \<open>interpretation\<close>, \<open>triage_assessment\<close>,
  \<open>report_data\<close>, \<open>quality_assessment\<close> respectively) and leaves every other field of
  the context as it was, the request inputs among them.
\<close>

theorem update_workflow_data_frame:
  assumes "stg \<in> set (map step_stage workflow_steps)"
  shows "wd_request_id (update_workflow_data stg r wd) = wd_request_id wd
       \<and> file_content (update_workflow_data stg r wd) = file_content wd
       \<and> file_type (update_workflow_data stg r wd) = file_type wd
       \<and> patient_demographics (update_workflow_data stg r wd) = patient_demographics wd
       \<and> historical_data (update_workflow_data stg r wd) = historical_data wd
       \<and> priority (update_workflow_data stg r wd) = priority wd
       \<and> extracted_data (update_workflow_data stg r wd)
           = (if stg = DATA_EXTRACTION then r else extracted_data wd)
       \<and> wd_interpretation (update_workflow_data stg r wd)
           = (if stg = INTERPRETATION then r else wd_interpretation wd)
       \<and> triage_assessment (update_workflow_data stg r wd)
           = (if stg = TRIAGE_ASSESSMENT then r else triage_assessment wd)
       \<and> report_data (update_workflow_data stg r wd)
           = (if stg = REPORT_GENERATION then r else report_data wd)
       \<and> quality_assessment (update_workflow_data stg r wd)
           = (if stg = QUALITY_VALIDATION then r else quality_assessment wd)"
proof -
  from assms have "stg = DATA_EXTRACTION \<or> stg = INTERPRETATION \<or> stg = TRIAGE_ASSESSMENT
      \<or> stg = REPORT_GENERATION \<or> stg = QUALITY_VALIDATION"
    by (simp add: workflow_steps_def)
  then show ?thesis
    by (elim disjE) (simp_all add: update_workflow_data_def)
qed

theorem update_workflow_data_frame_witness:
  "TRIAGE_ASSESSMENT \<in> set (map step_stage workflow_steps)
   \<and> triage_assessment (update_workflow_data TRIAGE_ASSESSMENT [(''level'', JStr ''urgent'')] sample_data)
       = [(''level'', JStr ''urgent'')]
   \<and> extracted_data (update_workflow_data TRIAGE_ASSESSMENT [(''level'', JStr ''urgent'')] sample_data)
       = extracted_data sample_data
   \<and> file_content (update_workflow_data TRIAGE_ASSESSMENT [(''level'', JStr ''urgent'')] sample_data)
       = ''FVC: 3.5''"
proof -
  have h: "TRIAGE_ASSESSMENT \<in> set (map step_stage workflow_steps)"
    by (simp add: workflow_steps_def)
  show ?thesis
    using h update_workflow_data_frame [OF h, of "[(''level'', JStr ''urgent'')]" sample_data]
    by (simp add: sample_data_def)
qed

section \<open>The status object\<close>

text \<open>
  C7, as the code has it. \<^verbatim>\<open>set_error\<close> has no guard on the stage it finds: whatever
  the status was, terminal or not, it becomes \<open>FAILED\<close> with the given message,
  \<open>completed_at\<close> is stamped with the clock reading of the call and
  \<open>processing_time\<close> recomputed from it; the request id, the progress, the step
  description, the start time and the stage results are kept.
\<close>

theorem set_error_unconditional:
  "stage (fst (set_error clock msg st w)) = FAILED
   \<and> error_message (fst (set_error clock msg st w)) = Some msg
   \<and> completed_at (fst (set_error clock msg st w)) = Some (fst (clock w))
   \<and> processing_time (fst (set_error clock msg st w)) = fst (clock w) - started_at st
   \<and> request_id (fst (set_error clock msg st w)) = request_id st
   \<and> progress (fst (set_error clock msg st w)) = progress st
   \<and> current_step (fst (set_error clock msg st w)) = current_step st
   \<and> started_at (fst (set_error clock msg st w)) = started_at st
   \<and> stage_results (fst (set_error clock msg st w)) = stage_results st
   \<and> snd (set_error clock msg st w) = snd (clock w)"
  by (simp add: set_error_def split_def Let_def)

text \<open>
  The claim of C7 as stated fails: a status that is \<open>COMPLETED\<close> since time 10 and is
  failed at time 50 becomes \<open>FAILED\<close>, completed at 50, with a processing time of 50.
\<close>

theorem set_error_after_completed_counterexample:
  "stage done_status = COMPLETED
   \<and> completed_at done_status = Some 10
   \<and> processing_time done_status = 10
   \<and> stage (fst (set_error tick_clock ''late failure'' done_status 50)) = FAILED
   \<and> completed_at (fst (set_error tick_clock ''late failure'' done_status 50)) = Some 50
   \<and> processing_time (fst (set_error tick_clock ''late failure'' done_status 50)) = 50"
  by (simp add: done_status_def update_stage_def set_error_def tick_clock_def
      WorkflowStatus_init_def)

section \<open>The result aggregator\<close>

text \<open>
  C6, as the code has it. The success envelope is built from the status, the context and
  two clock readings taken during the call: built at another time, or with another
  clock, it differs in \<open>test_date\<close> and \<open>generated_at\<close> of the report and in nothing
  else. (The failure envelope of \<open>create_error_response\<close> takes no clock at all.)
\<close>

theorem create_final_result_clock_fields_only:
  "fst (create_final_result clock steps rid wd st w) =
     (fst (create_final_result clock' steps rid wd st w'))
       \<lparr> fr_report := (fr_report (fst (create_final_result clock' steps rid wd st w')))
           \<lparr> test_date := fst (clock w),
             generated_at := fst (clock (snd (clock w))) \<rparr> \<rparr>"
  by (simp add: create_final_result_def split_def Let_def)

text \<open>
  The claim of C6 as stated fails: the same completed status and the same context,
  aggregated at clock readings 20 and 30, give two different envelopes.
\<close>

theorem create_final_result_twice_counterexample:
  "fst (create_final_result tick_clock workflow_steps ''req-1'' sample_data done_status 20)
     \<noteq> fst (create_final_result tick_clock workflow_steps ''req-1'' sample_data done_status 30)"
  by (simp add: create_final_result_def tick_clock_def Let_def)

section \<open>The announcement comes before the agent\<close>




section \<open>Which transitions reach the channel and the store\<close>

lemma handed_on_simps [simp]:
  "handed_on rid (Publish t d r) post"
  "handed_on rid (Set k v r) post"
  "handed_on rid (Callback d r) post"
  "handed_on rid (Invoke stg ag m a rep) post"
  by (simp_all add: handed_on_def)




















section \<open>Progress along a run\<close>

lemma sorted_snoc_step:
  fixes p q :: int
  assumes "sorted (0 # xs @ [p])" "p \<le> q"
  shows "sorted (0 # (xs @ [q]) @ [q])"
  using assms by (auto simp: sorted_append)

lemma try_step_progress:
  assumes run: "try_step env cb rid step wd s = (r, s')"
      and inv: "progress_invariant s"
      and le: "progress (status s) \<le> step_progress step"
      and ok: "step_progress step < 100" "step_stage step \<noteq> COMPLETED"
  shows "progress_invariant s' \<and> progress (status s') = step_progress step"
proof -
  define st1 where "st1 = fst (update_stage (datetime_now env) (step_stage step)
      (step_progress step) (step_description step) (status s) (world s))"
  have st1: "progress st1 = step_progress step" "stage st1 = step_stage step"
    by (simp_all add: st1_def)
  have h1: "hundred_iff_completed st1"
    using ok by (simp add: hundred_iff_completed_def st1)
  have srt: "sorted (0 # (map progress (transitions (trace s)) @ [step_progress step])
               @ [step_progress step])"
    using inv le by (intro sorted_snoc_step) (simp_all add: progress_invariant_def)
  have tr: "transitions (trace s') = transitions (trace s) @ [st1]"
    and st: "progress (status s') = progress st1" "stage (status s') = stage st1"
    using run by (cases rule: try_step_cases; simp add: st1_def)+
  show ?thesis
    using inv srt h1 ok st1
    by (simp add: progress_invariant_def tr st hundred_iff_completed_def)
qed

lemma failed_progress:
  fixes s s' :: "'w mstate"
  assumes tr: "transitions (trace s') = transitions (trace s) @ [status s']"
      and st: "stage (status s') = FAILED" "progress (status s') = progress (status s)"
      and inv: "progress_invariant s"
  shows "progress_invariant s'"
proof -
  have "sorted (0 # (map progress (transitions (trace s)) @ [progress (status s)])
               @ [progress (status s)])"
    using inv by (intro sorted_snoc_step [of _ "progress (status s)"])
      (simp_all add: progress_invariant_def)
  then show ?thesis
    using inv tr st by (simp add: progress_invariant_def hundred_iff_completed_def)
qed

lemma except_step_progress:
  assumes run: "except_step env rid step e s = (out, s')"
      and inv: "progress_invariant s"
  shows "progress_invariant s'"
proof -
  from except_step_shape [OF run]
  have "transitions (trace s') = transitions (trace s) @ [status s']"
    "stage (status s') = FAILED" "progress (status s') = progress (status s)"
    by auto
  then show ?thesis using inv by (rule failed_progress)
qed

lemma except_workflow_progress:
  assumes run: "except_workflow env rid e s = (res, s')"
      and inv: "progress_invariant s"
  shows "progress_invariant s'"
proof -
  from except_workflow_shape [OF run]
  have "transitions (trace s') = transitions (trace s) @ [status s']"
    "stage (status s') = FAILED" "progress (status s') = progress (status s)"
    by auto
  then show ?thesis using inv by (rule failed_progress)
qed

lemma complete_workflow_progress:
  assumes run: "complete_workflow env cb steps rid wd s = (r, s')"
      and inv: "progress_invariant s"
  shows "progress_invariant s'"
proof -
  define stC where "stC = fst (update_stage (datetime_now env) COMPLETED 100
      ''Processing completed successfully'' (status s) (world s))"
  have stC: "progress stC = 100" "stage stC = COMPLETED"
    by (simp_all add: stC_def)
  have srt: "sorted (0 # (map progress (transitions (trace s)) @ [100]) @ [100])"
    using inv by (intro sorted_snoc_step [of _ "progress (status s)"])
      (simp_all add: progress_invariant_def)
  have tr: "transitions (trace s') = transitions (trace s) @ [stC]"
    and st: "status s' = stC"
    using run by (cases rule: complete_workflow_cases; simp add: stC_def)+
  show ?thesis
    using inv srt stC by (simp add: progress_invariant_def tr st hundred_iff_completed_def)
qed

lemma run_steps_progress:
  assumes run: "run_steps env cb rid todo wd s = (out, s')"
      and inv: "progress_invariant s"
      and srt: "sorted (progress (status s) # map step_progress todo)"
      and ok: "\<forall>step\<in>set todo. step_progress step < 100 \<and> step_stage step \<noteq> COMPLETED"
  shows "progress_invariant s'"
  using run inv srt ok
proof (induction todo arbitrary: wd s)
  case Nil
  then show ?case by simp
next
  case (Cons step rest)
  obtain r s1 where t: "try_step env cb rid step wd s = (r, s1)"
    by (cases "try_step env cb rid step wd s")
  have le: "progress (status s) \<le> step_progress step"
    and ok1: "step_progress step < 100" "step_stage step \<noteq> COMPLETED"
    using Cons.prems(3,4) by simp_all
  note i1 = try_step_progress [OF t Cons.prems(2) le ok1]
  show ?case
  proof (cases r)
    case (Inl e)
    with Cons.prems(1) t have "except_step env rid step e s1 = (out, s')" by simp
    then show ?thesis using i1 by (rule except_step_progress [OF _ conjunct1])
  next
    case (Inr wd')
    with Cons.prems(1) t have x: "run_steps env cb rid rest wd' s1 = (out, s')" by simp
    have srt1: "sorted (progress (status s1) # map step_progress rest)"
      using i1 Cons.prems(3) by simp
    have ok': "\<forall>step\<in>set rest. step_progress step < 100 \<and> step_stage step \<noteq> COMPLETED"
      using Cons.prems(4) by simp
    from i1 have inv1: "progress_invariant s1" ..
    show ?thesis by (rule Cons.IH [OF x inv1 srt1 ok'])
  qed
qed

lemma initial_progress: "progress_invariant (initial_state env rid w)"
  by (simp add: progress_invariant_def hundred_iff_completed_def WorkflowStatus_init_def)

lemma process_steps_progress:
  assumes run: "process_steps env steps rid fc ft dem hist prio cb w = (res, sf)"
      and srt: "sorted (0 # map step_progress steps)"
      and ok: "\<forall>step\<in>set steps. step_progress step < 100 \<and> step_stage step \<noteq> COMPLETED"
  shows "progress_invariant sf"
proof -
  have srt0: "sorted (progress (status (initial_state env rid w)) # map step_progress steps)"
    using srt by (simp add: WorkflowStatus_init_def)
  note loop = run_steps_progress [OF _ initial_progress srt0 ok]
  from run show ?thesis
  proof (cases rule: process_steps_cases)
    case (returned resp)
    from returned(1) show ?thesis by (rule loop)
  next
    case (raised e s1)
    from raised(2) loop [OF raised(1)] show ?thesis by (rule except_workflow_progress)
  next
    case (completion_raised wd' s1 e s2)
    from completion_raised(2) loop [OF completion_raised(1)]
    have "progress_invariant s2" by (rule complete_workflow_progress)
    with completion_raised(3) show ?thesis by (rule except_workflow_progress)
  next
    case (succeeded wd' s1 fin)
    from succeeded(2) loop [OF succeeded(1)] show ?thesis by (rule complete_workflow_progress)
  qed
qed

text \<open>
  C3, as the code has it. In every run, the progress of the status never goes down from
  one transition to the next (the transition to \<open>FAILED\<close> keeps the progress it
  finds), and as long as the status is not \<open>FAILED\<close> its progress is 100 exactly when
  its stage is \<open>COMPLETED\<close>. This holds of the status at entry, of the status after
  every transition, and of the status at the end of the run.
\<close>

theorem progress_monotone_hundred_iff_completed_unless_failed:
  assumes run: "process_pft_request env rid fc ft dem hist prio cb w = (res, sf)"
  shows "sorted (map progress (WorkflowStatus_init rid (fst (datetime_now env w))
                                # transitions (trace sf)))
       \<and> (\<forall>st\<in>set (WorkflowStatus_init rid (fst (datetime_now env w)) # transitions (trace sf)).
             stage st \<noteq> FAILED \<longrightarrow> (progress st = 100 \<longleftrightarrow> stage st = COMPLETED))
       \<and> (stage (status sf) \<noteq> FAILED \<longrightarrow>
             (progress (status sf) = 100 \<longleftrightarrow> stage (status sf) = COMPLETED))"
proof -
  have "progress_invariant sf"
    using run unfolding process_pft_request_def
    by (rule process_steps_progress) (simp_all add: workflow_steps_def)
  then show ?thesis
    by (simp add: progress_invariant_def hundred_iff_completed_def WorkflowStatus_init_def
        sorted_append)
qed

theorem progress_monotone_witness:
  "hd (transitions (trace (snd (sample_run slow_extraction_env))))
     \<in> set (WorkflowStatus_init ''req-1'' (fst (datetime_now slow_extraction_env 0))
             # transitions (trace (snd (sample_run slow_extraction_env))))
   \<and> stage (hd (transitions (trace (snd (sample_run slow_extraction_env))))) \<noteq> FAILED
   \<and> (progress (hd (transitions (trace (snd (sample_run slow_extraction_env))))) = 100
        \<longleftrightarrow> stage (hd (transitions (trace (snd (sample_run slow_extraction_env))))) = COMPLETED)
   \<and> sorted (map progress
        (WorkflowStatus_init ''req-1'' (fst (datetime_now slow_extraction_env 0))
         # transitions (trace (snd (sample_run slow_extraction_env)))))"
proof -
  have run: "process_pft_request slow_extraction_env ''req-1'' ''FVC: 3.5'' ''txt''
               [(''age'', JInt 40)] None ''routine'' None 0
             = (fst (sample_run slow_extraction_env), snd (sample_run slow_extraction_env))"
    by (simp add: sample_run_def)
  have ev: "map stage (transitions (trace (snd (sample_run slow_extraction_env))))
              = [DATA_EXTRACTION, FAILED]"
    by (simp add: sample_run_def slow_extraction_env_def run_defs)
  then obtain st1 st2 where
    ts: "transitions (trace (snd (sample_run slow_extraction_env))) = [st1, st2]"
    and st1: "stage st1 = DATA_EXTRACTION"
    by auto
  show ?thesis
    using progress_monotone_hundred_iff_completed_unless_failed [OF run] st1
    unfolding ts by simp
qed

text \<open>
  The claim of C3 as stated fails: when publishing the completed snapshot raises, the
  outer handler fails a status whose progress is already 100, and the run ends with
  progress 100 in stage \<open>FAILED\<close>.
\<close>

theorem failed_after_completed_counterexample:
  "progress_and_stage (status (snd (sample_run late_publish_env))) = (100, FAILED)"
  by (simp add: sample_run_def late_publish_env_def progress_and_stage_def run_defs)

section \<open>The structure of the loop\<close>

lemma invocations_append [simp]: "invocations (xs @ ys) = invocations xs @ invocations ys"
  by (induction xs rule: invocations.induct) simp_all

lemma invocations_callback_events [simp]: "invocations (callback_events cb d r) = []"
  by (simp add: callback_events_def split: option.splits)

lemma raised_callback_events [simp]: "ev \<in> set (callback_events cb d None) \<Longrightarrow> \<not> raised ev"
  by (auto simp: callback_events_def split: option.splits)

lemma dict_set_fresh: "k \<notin> fst ` set d \<Longrightarrow> dict_set k v d = d @ [(k, v)]"
  by (induction d) auto

lemma wait_for_Inr: "wait_for rep timeout = Inr p \<Longrightarrow> reply rep = Inr p"
  by (simp add: wait_for_def split: if_splits)

lemma stage_value_inj [simp]: "stage_value a = stage_value b \<longleftrightarrow> a = b"
  by (cases a; cases b; simp)

lemma except_step_result:
  fixes env :: "'w env" and s s' :: "'w mstate"
  assumes run: "except_step env rid step e s = (out, s')"
  shows "\<exists>r. trace s' = trace s @ [Transition (status s'),
                  Set (''pft:processing:'' @ rid) (StatusJson (to_dict (status s'))) r]
             \<and> out = (case r of
                        None \<Rightarrow> Return (create_error_response rid (step_error_msg step e) (status s'))
                      | Some e' \<Rightarrow> Raise e')"
    and "stage (status s') = FAILED"
    and "error_message (status s') = Some (step_error_msg step e)"
    and "stage_results (status s') = stage_results (status s)"
    and "progress (status s') = progress (status s)"
proof -
  note sh = except_step_shape [OF run]
  show "\<exists>r. trace s' = trace s @ [Transition (status s'),
                  Set (''pft:processing:'' @ rid) (StatusJson (to_dict (status s'))) r]
             \<and> out = (case r of
                        None \<Rightarrow> Return (create_error_response rid (step_error_msg step e) (status s'))
                      | Some e' \<Rightarrow> Raise e')"
    unfolding sh(1) by (rule sh(2))
  show "stage (status s') = FAILED" "error_message (status s') = Some (step_error_msg step e)"
    "stage_results (status s') = stage_results (status s)"
    "progress (status s') = progress (status s)"
    by (simp_all add: sh(1))
qed

lemma except_workflow_result:
  fixes env :: "'w env" and s s' :: "'w mstate"
  assumes run: "except_workflow env rid e s = (res, s')"
  shows "\<exists>r. trace s' = trace s @ [Transition (status s'),
                  Set (''pft:processing:'' @ rid) (StatusJson (to_dict (status s'))) r]
             \<and> res = (case r of
                        None \<Rightarrow> Inr (Failure (create_error_response rid
                                   (''Unexpected error in workflow: '' @ str_exc e) (status s')))
                      | Some e' \<Rightarrow> Inl e')"
    and "stage (status s') = FAILED"
    and "error_message (status s') = Some (''Unexpected error in workflow: '' @ str_exc e)"
    and "stage_results (status s') = stage_results (status s)"
    and "progress (status s') = progress (status s)"
proof -
  note sh = except_workflow_shape [OF run]
  show "\<exists>r. trace s' = trace s @ [Transition (status s'),
                  Set (''pft:processing:'' @ rid) (StatusJson (to_dict (status s'))) r]
             \<and> res = (case r of
                        None \<Rightarrow> Inr (Failure (create_error_response rid
                                   (''Unexpected error in workflow: '' @ str_exc e) (status s')))
                      | Some e' \<Rightarrow> Inl e')"
    unfolding sh(1) by (rule sh(2))
  show "stage (status s') = FAILED"
    "error_message (status s') = Some (''Unexpected error in workflow: '' @ str_exc e)"
    "stage_results (status s') = stage_results (status s)"
    "progress (status s') = progress (status s)"
    by (simp_all add: sh(1))
qed

lemma run_steps_structure:
  fixes env :: "'w env" and s s' :: "'w mstate"
  assumes run: "run_steps env cb rid todo wd s = (out, s')"
      and known: "\<forall>st\<in>set todo. known_stage (step_stage st)"
      and dist: "distinct (map step_stage todo)"
      and fresh: "\<forall>st\<in>set todo. stage_value (step_stage st) \<notin> fst ` set (stage_results (status s))"
  shows "(\<exists>wd' evs.
            out = Fallthrough wd'
          \<and> trace s' = trace s @ evs
          \<and> (\<forall>ev\<in>set evs. \<not> raised ev)
          \<and> list_all2 timely todo (invocations evs)
          \<and> stage_results (status s')
               = stage_results (status s) @ map returned (invocations evs)
          \<and> error_message (status s') = error_message (status s))
       \<or> (\<exists>k evs blk e r.
            k < length todo
          \<and> trace s' = trace s @ evs @ blk
               @ [Transition (status s'),
                  Set (''pft:processing:'' @ rid) (StatusJson (to_dict (status s'))) r]
          \<and> (\<forall>ev\<in>set evs. \<not> raised ev)
          \<and> list_all2 timely (take k todo) (invocations evs)
          \<and> failing_block rid cb (todo ! k) e blk
          \<and> stage_results (status s')
               = stage_results (status s) @ map returned (invocations evs)
          \<and> stage (status s') = FAILED
          \<and> error_message (status s') = Some (step_error_msg (todo ! k) e)
          \<and> out = (case r of
                     None \<Rightarrow> Return (create_error_response rid
                                       (step_error_msg (todo ! k) e) (status s'))
                   | Some e' \<Rightarrow> Raise e'))"
  using run known dist fresh
proof (induction todo arbitrary: wd s)
  case Nil
  then show ?case by auto
next
  case (Cons step rest)
  define st1 where "st1 = fst (update_stage (datetime_now env) (step_stage step)
      (step_progress step) (step_description step) (status s) (world s))"
  have st1: "stage st1 = step_stage step" "progress st1 = step_progress step"
    "current_step st1 = step_description step" "stage_results st1 = stage_results (status s)"
    "error_message st1 = error_message (status s)"
    by (simp_all add: st1_def)
  have kn: "known_stage (step_stage step)" using Cons.prems(2) by simp
  obtain r1 s1 where t: "try_step env cb rid step wd s = (r1, s1)"
    by (cases "try_step env cb rid step wd s")
  have failure: ?case
    if r1: "r1 = Inl e" and s1: "status s1 = st1" and tr1: "trace s1 = trace s @ blk"
      and fb: "failing_block rid cb step e blk" for e blk
  proof -
    from Cons.prems(1) t r1 have x: "except_step env rid step e s1 = (out, s')" by simp
    note rs = except_step_result [OF x]
    from rs(1) obtain r where
      sh: "trace s' = trace s1 @ [Transition (status s'),
              Set (''pft:processing:'' @ rid) (StatusJson (to_dict (status s'))) r]"
          "out = (case r of None \<Rightarrow> Return (create_error_response rid (step_error_msg step e) (status s'))
                  | Some e' \<Rightarrow> Raise e')"
      by blast
    show ?thesis
      apply (rule disjI2)
      apply (rule exI [of _ 0], rule exI [of _ "[]"], rule exI [of _ blk], rule exI [of _ e],
          rule exI [of _ r])
      using sh rs(2-4) tr1 fb s1 st1 by (simp split: option.splits)
  qed
  from t show ?case
  proof (cases rule: try_step_cases)
    case (publish_raised e)
    show ?thesis
      by (rule failure [OF publish_raised(1)])
        (use publish_raised st1 in \<open>auto simp: st1_def [symmetric] failing_block_def\<close>)
  next
    case (persist_raised e)
    show ?thesis
      by (rule failure [OF persist_raised(1)])
        (use persist_raised st1 in \<open>auto simp: st1_def [symmetric] failing_block_def\<close>)
  next
    case (callback_raised e)
    show ?thesis
      by (rule failure [OF callback_raised(1)])
        (use callback_raised st1 in \<open>auto simp: st1_def [symmetric] failing_block_def\<close>)
  next
    case (unknown_stage e)
    with kn show ?thesis by simp
  next
    case (invoke_failed m args rep e)
    show ?thesis
    proof (rule failure [OF invoke_failed(3)])
      show "status s1 = st1" using invoke_failed by (simp add: st1_def)
      show "trace s1 = trace s @ ([Transition st1,
              Publish (''pft:progress:'' @ rid) (to_dict st1) None,
              Set (''pft:processing:'' @ rid) (StatusJson (to_dict st1)) None]
              @ callback_events cb (to_dict st1) None
              @ [Invoke (step_stage step) (step_agent step) m args rep])"
        using invoke_failed by (simp add: st1_def)
      show "failing_block rid cb step e ([Transition st1,
              Publish (''pft:progress:'' @ rid) (to_dict st1) None,
              Set (''pft:processing:'' @ rid) (StatusJson (to_dict st1)) None]
              @ callback_events cb (to_dict st1) None
              @ [Invoke (step_stage step) (step_agent step) m args rep])"
        unfolding failing_block_def
        using st1 invoke_failed(2) by (intro exI [of _ st1]) blast
    qed
  next
    case (invoke_returned m args rep result)
    define blk where "blk = [Transition st1,
        Publish (''pft:progress:'' @ rid) (to_dict st1) None,
        Set (''pft:processing:'' @ rid) (StatusJson (to_dict st1)) None]
        @ callback_events cb (to_dict st1) None
        @ [Invoke (step_stage step) (step_agent step) m args rep]"
    have tr1: "trace s1 = trace s @ blk"
      using invoke_returned by (simp add: blk_def st1_def)
    have clean: "\<forall>ev\<in>set blk. \<not> raised ev"
      by (auto simp: blk_def)
    have inv: "invocations blk = [(step_stage step, rep)]"
      by (simp add: blk_def)
    have tm: "timely step (step_stage step, rep)"
      using invoke_returned(2) by (simp add: timely_def)
    have res1: "stage_results (status s1)
        = dict_set (stage_value (step_stage step)) result (stage_results (status s))"
      and err1: "error_message (status s1) = error_message (status s)"
      using invoke_returned(4) st1 by (simp_all add: st1_def)
    have pay: "returned (step_stage step, rep) = (stage_value (step_stage step), result)"
      using wait_for_Inr [OF invoke_returned(2)] by simp
    have keys1: "stage_results (status s1)
        = stage_results (status s) @ [returned (step_stage step, rep)]"
      using Cons.prems(4) by (simp add: res1 pay dict_set_fresh del: returned.simps)
    from Cons.prems(1) t invoke_returned(3)
    have x: "run_steps env cb rid rest (update_workflow_data (step_stage step) result wd) s1
               = (out, s')"
      by simp
    have known': "\<forall>st\<in>set rest. known_stage (step_stage st)"
      and dist': "distinct (map step_stage rest)"
      using Cons.prems(2,3) by simp_all
    have fresh': "\<forall>st\<in>set rest. stage_value (step_stage st)
                    \<notin> fst ` set (stage_results (status s1))"
    proof
      fix st assume st: "st \<in> set rest"
      from Cons.prems(3) have "step_stage step \<notin> step_stage ` set rest" by simp
      with st have ne: "step_stage st \<noteq> step_stage step" by (metis imageI)
      have "set (map fst (stage_results (status s1)))
              = insert (stage_value (step_stage step)) (fst ` set (stage_results (status s)))"
        by (simp add: keys1 pay del: returned.simps)
      moreover have "stage_value (step_stage st) \<notin> fst ` set (stage_results (status s))"
        using Cons.prems(4) st by simp
      ultimately show "stage_value (step_stage st) \<notin> fst ` set (stage_results (status s1))"
        using ne by (simp del: set_map add: set_map [symmetric])
    qed
    from Cons.IH [OF x known' dist' fresh'] show ?thesis
    proof (elim disjE exE conjE)
      fix wd' evs
      assume a: "out = Fallthrough wd'" "trace s' = trace s1 @ evs"
        "\<forall>ev\<in>set evs. \<not> raised ev" "list_all2 timely rest (invocations evs)"
        "stage_results (status s') = stage_results (status s1) @ map returned (invocations evs)"
        "error_message (status s') = error_message (status s1)"
      show ?thesis
        apply (rule disjI1)
        apply (rule exI [of _ wd'], rule exI [of _ "blk @ evs"])
        using a tr1 clean inv tm keys1 err1 by auto
    next
      fix k evs fblk e r
      assume a: "k < length rest"
        "trace s' = trace s1 @ evs @ fblk @ [Transition (status s'),
            Set (''pft:processing:'' @ rid) (StatusJson (to_dict (status s'))) r]"
        "\<forall>ev\<in>set evs. \<not> raised ev" "list_all2 timely (take k rest) (invocations evs)"
        "failing_block rid cb (rest ! k) e fblk"
        "stage_results (status s') = stage_results (status s1) @ map returned (invocations evs)"
        "stage (status s') = FAILED"
        "error_message (status s') = Some (step_error_msg (rest ! k) e)"
        "out = (case r of None \<Rightarrow> Return (create_error_response rid
                    (step_error_msg (rest ! k) e) (status s'))
                | Some e' \<Rightarrow> Raise e')"
      show ?thesis
        apply (rule disjI2)
        apply (rule exI [of _ "Suc k"], rule exI [of _ "blk @ evs"], rule exI [of _ fblk],
            rule exI [of _ e], rule exI [of _ r])
        using a tr1 clean inv tm keys1 by (auto split: option.splits)
    qed
  qed
qed

lemma raised_failure_of: "raised ev \<longleftrightarrow> failure_of ev \<noteq> None"
  by (cases ev) simp_all

lemma failing_block_raised:
  assumes fb: "failing_block rid cb step e blk" and ev: "ev \<in> set blk" and r: "raised ev"
  shows "blk = butlast blk @ [ev]" "failure_of ev = Some e" "invocations blk = []"
    "\<exists>d. snapshot ev = Some d \<and> d_stage d = stage_value (step_stage step)"
    "\<forall>x\<in>set (butlast blk). \<not> raised x"
  using fb ev r unfolding failing_block_def
  by (auto dest: raised_callback_events)

lemma failing_block_invoked:
  assumes fb: "failing_block rid cb step e blk"
      and ev: "Invoke stg ag m a rep \<in> set blk"
  shows "stg = step_stage step" "wait_for rep (step_timeout step) = Inl e"
    "invocations blk = [(stg, rep)]" "\<forall>x\<in>set blk. \<not> raised x"
    "blk = butlast blk @ [Invoke stg ag m a rep]"
  using fb ev unfolding failing_block_def
  by (auto simp: callback_events_def split: option.splits)


lemma failing_block_invocations:
  assumes fb: "failing_block rid cb step e blk"
  shows "invocations blk = [] \<or> (\<exists>rep. invocations blk = [(step_stage step, rep)])"
  using fb unfolding failing_block_def by auto

lemma failing_block_snapshot:
  assumes fb: "failing_block rid cb step e blk" and ev: "ev \<in> set blk"
      and sn: "snapshot ev = Some d"
  shows "d_stage d = stage_value (step_stage step)"
  using fb ev sn unfolding failing_block_def
  by (auto simp: callback_events_def split: option.splits)

lemma create_final_result_fields:
  "fr_status (fst (create_final_result clock steps rid wd st w)) = ''completed''"
  "fr_request_id (fst (create_final_result clock steps rid wd st w)) = rid"
  "fr_workflow_status (fst (create_final_result clock steps rid wd st w)) = to_dict st"
  "agents_used (r_processing_metadata (fr_report (fst (create_final_result clock steps rid wd st w))))
     = map (\<lambda>step. stage_value (step_stage step)) steps"
  by (simp_all add: create_final_result_def split_def Let_def)

lemma complete_workflow_structure:
  fixes env :: "'w env" and s s' :: "'w mstate"
  assumes run: "complete_workflow env cb steps rid wd s = (r, s')"
  shows "\<exists>cblk. trace s' = trace s @ cblk
           \<and> invocations cblk = []
           \<and> (\<forall>ev\<in>set cblk. \<forall>d. snapshot ev = Some d \<longrightarrow> d_stage d = ''completed'')
           \<and> stage (status s') = COMPLETED \<and> progress (status s') = 100
           \<and> stage_results (status s') = stage_results (status s)
           \<and> (case r of
                 Inl e \<Rightarrow> (\<exists>ev\<in>set cblk. raised ev)
               | Inr fin \<Rightarrow> (\<forall>ev\<in>set cblk. \<not> raised ev)
                    \<and> fr_status fin = ''completed''
                    \<and> fr_workflow_status fin = to_dict (status s')
                    \<and> agents_used (r_processing_metadata (fr_report fin))
                         = map (\<lambda>step. stage_value (step_stage step)) steps)"
  using run
proof (cases rule: complete_workflow_cases)
  case (publish_raised e)
  then show ?thesis by simp
next
  case (persist_raised e)
  then show ?thesis by simp
next
  case (callback_raised e)
  then show ?thesis by simp
next
  case (report_raised e fin w)
  then show ?thesis by (auto simp: callback_events_def split: option.splits)
next
  case (completed fin w)
  then show ?thesis
    by (auto simp: callback_events_def create_final_result_fields split: option.splits)
qed

lemma process_steps_structure:
  fixes env :: "'w env" and sf :: "'w mstate"
  assumes run: "process_steps env steps rid fc ft dem hist prio cb w = (res, sf)"
      and known: "\<forall>st\<in>set steps. known_stage (step_stage st)"
      and dist: "distinct (map step_stage steps)"
  obtains
    (completed) evs cblk fin where
      "trace sf = evs @ cblk"
      "\<forall>ev\<in>set evs. \<not> raised ev" "list_all2 timely steps (invocations evs)"
      "\<forall>ev\<in>set cblk. \<not> raised ev" "invocations cblk = []"
      "stage_results (status sf) = map returned (invocations evs)"
      "stage (status sf) = COMPLETED" "progress (status sf) = 100"
      "res = Inr (Success fin)" "fr_status fin = ''completed''"
      "fr_workflow_status fin = to_dict (status sf)"
      "agents_used (r_processing_metadata (fr_report fin))
         = map (\<lambda>step. stage_value (step_stage step)) steps"
  | (completion_failed) evs cblk e r where
      "trace sf = evs @ cblk @ [Transition (status sf),
          Set (''pft:processing:'' @ rid) (StatusJson (to_dict (status sf))) r]"
      "\<forall>ev\<in>set evs. \<not> raised ev" "list_all2 timely steps (invocations evs)"
      "\<exists>ev\<in>set cblk. raised ev" "invocations cblk = []"
      "\<forall>ev\<in>set cblk. \<forall>d. snapshot ev = Some d \<longrightarrow> d_stage d = ''completed''"
      "stage_results (status sf) = map returned (invocations evs)"
      "stage (status sf) = FAILED" "progress (status sf) = 100"
      "error_message (status sf) = Some (''Unexpected error in workflow: '' @ str_exc e)"
      "res = (case r of
                None \<Rightarrow> Inr (Failure (create_error_response rid
                           (''Unexpected error in workflow: '' @ str_exc e) (status sf)))
              | Some e' \<Rightarrow> Inl e')"
  | (step_failed) k evs blk e stF r tail where
      "k < length steps"
      "trace sf = evs @ blk @ [Transition stF,
          Set (''pft:processing:'' @ rid) (StatusJson (to_dict stF)) r] @ tail"
      "\<forall>ev\<in>set evs. \<not> raised ev" "list_all2 timely (take k steps) (invocations evs)"
      "failing_block rid cb (steps ! k) e blk"
      "stage_results (status sf) = map returned (invocations evs)"
      "stage stF = FAILED" "error_message stF = Some (step_error_msg (steps ! k) e)"
      "stage (status sf) = FAILED"
      "r = None \<Longrightarrow> tail = [] \<and> status sf = stF
         \<and> res = Inr (Failure (create_error_response rid (step_error_msg (steps ! k) e) stF))"
      "\<And>e'. r = Some e' \<Longrightarrow>
         \<exists>r2. tail = [Transition (status sf),
                   Set (''pft:processing:'' @ rid) (StatusJson (to_dict (status sf))) r2]
           \<and> error_message (status sf) = Some (''Unexpected error in workflow: '' @ str_exc e')
           \<and> res = (case r2 of
                      None \<Rightarrow> Inr (Failure (create_error_response rid
                                 (''Unexpected error in workflow: '' @ str_exc e') (status sf)))
                    | Some e'' \<Rightarrow> Inl e'')"
proof -
  define s0 where "s0 = initial_state env rid w"
  define wd0 where "wd0 = initial_workflow_data rid fc ft dem hist prio"
  have s0: "trace s0 = []" "stage_results (status s0) = []"
    by (simp_all add: s0_def WorkflowStatus_init_def)
  have fresh: "\<forall>st\<in>set steps. stage_value (step_stage st) \<notin> fst ` set (stage_results (status s0))"
    by (simp add: s0)
  have loop: "run_steps env cb rid steps wd0 s0 = (out, s1) \<Longrightarrow>
      (\<exists>wd' evs.
            out = Fallthrough wd'
          \<and> trace s1 = evs
          \<and> (\<forall>ev\<in>set evs. \<not> raised ev)
          \<and> list_all2 timely steps (invocations evs)
          \<and> stage_results (status s1) = map returned (invocations evs))
       \<or> (\<exists>k evs blk e r.
            k < length steps
          \<and> trace s1 = evs @ blk
               @ [Transition (status s1),
                  Set (''pft:processing:'' @ rid) (StatusJson (to_dict (status s1))) r]
          \<and> (\<forall>ev\<in>set evs. \<not> raised ev)
          \<and> list_all2 timely (take k steps) (invocations evs)
          \<and> failing_block rid cb (steps ! k) e blk
          \<and> stage_results (status s1) = map returned (invocations evs)
          \<and> stage (status s1) = FAILED
          \<and> error_message (status s1) = Some (step_error_msg (steps ! k) e)
          \<and> out = (case r of
                     None \<Rightarrow> Return (create_error_response rid
                                       (step_error_msg (steps ! k) e) (status s1))
                   | Some e' \<Rightarrow> Raise e'))" for out s1
    using run_steps_structure [of env cb rid steps wd0 s0 out s1, OF _ known dist fresh]
    unfolding s0 append_Nil by blast
  from run show thesis
  proof (cases rule: process_steps_cases)
    case (returned resp)
    from loop [OF returned(1) [folded s0_def wd0_def]]
    obtain k evs blk e r where a:
      "k < length steps"
      "trace sf = evs @ blk @ [Transition (status sf),
          Set (''pft:processing:'' @ rid) (StatusJson (to_dict (status sf))) r]"
      "\<forall>ev\<in>set evs. \<not> raised ev" "list_all2 timely (take k steps) (invocations evs)"
      "failing_block rid cb (steps ! k) e blk"
      "stage_results (status sf) = map returned (invocations evs)"
      "stage (status sf) = FAILED"
      "error_message (status sf) = Some (step_error_msg (steps ! k) e)"
      "Return resp = (case r of
                     None \<Rightarrow> Return (create_error_response rid
                                       (step_error_msg (steps ! k) e) (status sf))
                   | Some e' \<Rightarrow> Raise e')"
      by auto
    from a(9) have r: "r = None"
      "resp = create_error_response rid (step_error_msg (steps ! k) e) (status sf)"
      by (simp_all split: option.splits)
    show thesis
      by (rule step_failed [of k evs blk "status sf" r "[]" e])
        (use a r returned(2) in simp_all)
  next
    case (raised e' s1)
    from loop [OF raised(1) [folded s0_def wd0_def]]
    obtain k evs blk e r where a:
      "k < length steps"
      "trace s1 = evs @ blk @ [Transition (status s1),
          Set (''pft:processing:'' @ rid) (StatusJson (to_dict (status s1))) r]"
      "\<forall>ev\<in>set evs. \<not> raised ev" "list_all2 timely (take k steps) (invocations evs)"
      "failing_block rid cb (steps ! k) e blk"
      "stage_results (status s1) = map returned (invocations evs)"
      "stage (status s1) = FAILED"
      "error_message (status s1) = Some (step_error_msg (steps ! k) e)"
      "Raise e' = (case r of
                     None \<Rightarrow> Return (create_error_response rid
                                       (step_error_msg (steps ! k) e) (status s1))
                   | Some e' \<Rightarrow> Raise e')"
      by auto
    from a(9) have r: "r = Some e'" by (simp split: option.splits)
    note ew = except_workflow_result [OF raised(2)]
    from ew(1) obtain r2 where b:
      "trace sf = trace s1 @ [Transition (status sf),
          Set (''pft:processing:'' @ rid) (StatusJson (to_dict (status sf))) r2]"
      "res = (case r2 of
                None \<Rightarrow> Inr (Failure (create_error_response rid
                           (''Unexpected error in workflow: '' @ str_exc e') (status sf)))
              | Some e'' \<Rightarrow> Inl e'')"
      by blast
    show thesis
      by (rule step_failed [of k evs blk "status s1" r
            "[Transition (status sf),
              Set (''pft:processing:'' @ rid) (StatusJson (to_dict (status sf))) r2]" e])
        (use a b r ew(2-4) in simp_all)
  next
    case (completion_raised wd' s1 e s2)
    from loop [OF completion_raised(1) [folded s0_def wd0_def]]
    obtain evs where a:
      "trace s1 = evs" "\<forall>ev\<in>set evs. \<not> raised ev"
      "list_all2 timely steps (invocations evs)"
      "stage_results (status s1) = map returned (invocations evs)"
      by (auto split: option.splits)
    from complete_workflow_structure [OF completion_raised(2)]
    obtain cblk where c:
      "trace s2 = trace s1 @ cblk" "invocations cblk = []"
      "\<forall>ev\<in>set cblk. \<forall>d. snapshot ev = Some d \<longrightarrow> d_stage d = ''completed''"
      "progress (status s2) = 100" "stage_results (status s2) = stage_results (status s1)"
      "\<exists>ev\<in>set cblk. raised ev"
      by auto
    note ew = except_workflow_result [OF completion_raised(3)]
    from ew(1) obtain r where b:
      "trace sf = trace s2 @ [Transition (status sf),
          Set (''pft:processing:'' @ rid) (StatusJson (to_dict (status sf))) r]"
      "res = (case r of
                None \<Rightarrow> Inr (Failure (create_error_response rid
                           (''Unexpected error in workflow: '' @ str_exc e) (status sf)))
              | Some e' \<Rightarrow> Inl e')"
      by blast
    show thesis
      by (rule completion_failed [of evs cblk r e])
        (use a b c ew(2-5) in simp_all)
  next
    case (succeeded wd' s1 fin)
    from loop [OF succeeded(1) [folded s0_def wd0_def]]
    obtain evs where a:
      "trace s1 = evs" "\<forall>ev\<in>set evs. \<not> raised ev"
      "list_all2 timely steps (invocations evs)"
      "stage_results (status s1) = map returned (invocations evs)"
      by (auto split: option.splits)
    from complete_workflow_structure [OF succeeded(2)]
    obtain cblk where c:
      "trace sf = trace s1 @ cblk" "invocations cblk = []"
      "stage (status sf) = COMPLETED"
      "progress (status sf) = 100" "stage_results (status sf) = stage_results (status s1)"
      "\<forall>ev\<in>set cblk. \<not> raised ev" "fr_status fin = ''completed''"
      "fr_workflow_status fin = to_dict (status sf)"
      "agents_used (r_processing_metadata (fr_report fin))
         = map (\<lambda>step. stage_value (step_stage step)) steps"
      by auto
    show thesis
      by (rule completed [of evs cblk fin]) (use a c succeeded(3) in simp_all)
  qed
qed

text \<open>The registry of the orchestrator meets the conditions of the structure lemma.\<close>

lemma workflow_steps_known: "\<forall>st\<in>set workflow_steps. known_stage (step_stage st)"
  by (simp add: workflow_steps_def known_stage_def)

lemma workflow_steps_distinct: "distinct (map step_stage workflow_steps)"
  by (simp add: workflow_steps_def)

lemmas process_pft_request_structure [consumes 1, case_names completed completion_failed step_failed] =
  process_steps_structure [where steps = workflow_steps,
    OF _ workflow_steps_known workflow_steps_distinct, folded process_pft_request_def]

lemma invoke_in_invocations:
  "Invoke stg ag m a rep \<in> set evs \<Longrightarrow> (stg, rep) \<in> set (invocations evs)"
  by (induction evs rule: invocations.induct) auto

lemma invocations_in_invoke:
  "(stg, rep) \<in> set (invocations evs) \<Longrightarrow> \<exists>ag m a. Invoke stg ag m a rep \<in> set evs"
  by (induction evs rule: invocations.induct) auto

lemma timely_stages:
  "list_all2 timely steps calls \<Longrightarrow> map fst calls = map step_stage steps"
  by (induction rule: list_all2_induct) (simp_all add: timely_def)

lemma timely_member:
  assumes "list_all2 timely steps calls" "call \<in> set calls"
  shows "\<exists>step\<in>set steps. timely step call"
  using assms by (induction rule: list_all2_induct) auto

lemma workflow_steps_stage_index:
  assumes "k < length workflow_steps"
  shows "step_stage (workflow_steps ! k) = DATA_EXTRACTION \<longleftrightarrow> k = 0"
    "step_stage (workflow_steps ! k) = INTERPRETATION \<longleftrightarrow> k = 1"
    "step_stage (workflow_steps ! k) = TRIAGE_ASSESSMENT \<longleftrightarrow> k = 2"
    "step_stage (workflow_steps ! k) = REPORT_GENERATION \<longleftrightarrow> k = 3"
    "step_stage (workflow_steps ! k) = QUALITY_VALIDATION \<longleftrightarrow> k = 4"
proof -
  from assms have "k = 0 \<or> k = 1 \<or> k = 2 \<or> k = 3 \<or> k = 4"
    by (simp add: workflow_steps_def) arith
  then show "step_stage (workflow_steps ! k) = DATA_EXTRACTION \<longleftrightarrow> k = 0"
    "step_stage (workflow_steps ! k) = INTERPRETATION \<longleftrightarrow> k = 1"
    "step_stage (workflow_steps ! k) = TRIAGE_ASSESSMENT \<longleftrightarrow> k = 2"
    "step_stage (workflow_steps ! k) = REPORT_GENERATION \<longleftrightarrow> k = 3"
    "step_stage (workflow_steps ! k) = QUALITY_VALIDATION \<longleftrightarrow> k = 4"
    by (auto simp: workflow_steps_def)
qed

lemma workflow_steps_timeout:
  assumes "step \<in> set workflow_steps"
  shows "step_stage step = INTERPRETATION \<Longrightarrow> step_timeout step = 90"
    and "step_stage step = TRIAGE_ASSESSMENT \<Longrightarrow> step_timeout step = 60"
  using assms by (auto simp: workflow_steps_def)

text \<open>An agent call that is in the clean part of a run was timely for its step.\<close>

lemma clean_call_timely:
  assumes tm: "list_all2 timely (take k workflow_steps) (invocations evs)"
      and ev: "Invoke stg ag m a rep \<in> set evs"
  shows "\<exists>step\<in>set workflow_steps. step_stage step = stg
           \<and> (\<exists>p. wait_for rep (step_timeout step) = Inr p)"
proof -
  from ev have "(stg, rep) \<in> set (invocations evs)" by (rule invoke_in_invocations)
  from timely_member [OF tm this] obtain step where
    "step \<in> set (take k workflow_steps)" "timely step (stg, rep)" by blast
  then show ?thesis
    by (auto simp: timely_def dest: in_set_takeD)
qed

lemma tail_no_invocations:
  fixes sf :: "'w mstate"
  assumes "r = None \<Longrightarrow> tail = [] \<and> P"
      and "\<And>e'. r = Some e' \<Longrightarrow>
         \<exists>r2. tail = [Transition (status sf),
                   Set k (StatusJson (to_dict (status sf))) r2] \<and> Q e' r2"
  shows "invocations tail = []"
  using assms by (cases r) auto

section \<open>The run in which nothing fails\<close>




section \<open>A stage that exceeds its bounded wait\<close>

text \<open>
  C2, as the code has it. The five stages of the registry carry the timeouts 60, 90, 60,
  120 and 30 seconds. In a run in which the agent of the second stage takes more than 90
  seconds, the agents of the first two stages are the only ones called,
  \<^verbatim>\<open>stage_results\<close> holds the single entry \<^verbatim>\<open>data_extraction\<close>, and right after the
  call the status is failed with the message \<^verbatim>\<open>Timeout in step interpretation\<close> and
  that snapshot is written to the store. If this write returns, the run ends there and
  the invocation returns the failure envelope with that message. If it raises \<open>e'\<close>, the
  outer handler fails the status again with \<^verbatim>\<open>Unexpected error in workflow: <e'>\<close> and
  writes it: the envelope with this second message is returned if that write returns, and
  otherwise its exception leaves \<^verbatim>\<open>process_pft_request\<close>. The run ends in stage
  \<open>FAILED\<close> in every case.
\<close>

theorem interpretation_timeout_fails_workflow:
  assumes run: "process_pft_request env rid fc ft dem hist prio cb w = (res, sf)"
      and inv: "Invoke INTERPRETATION ag m a rep \<in> set (trace sf)"
      and slow: "90 < elapsed rep"
  shows "map step_timeout workflow_steps = [60, 90, 60, 120, 30]
       \<and> map fst (invocations (trace sf)) = [DATA_EXTRACTION, INTERPRETATION]
       \<and> map fst (stage_results (status sf)) = [''data_extraction'']
       \<and> stage (status sf) = FAILED
       \<and> (\<exists>pre stF r tail.
             trace sf = pre @ [Invoke INTERPRETATION ag m a rep, Transition stF,
                               Set (''pft:processing:'' @ rid) (StatusJson (to_dict stF)) r] @ tail
           \<and> stage stF = FAILED
           \<and> error_message stF = Some ''Timeout in step interpretation''
           \<and> (r = None \<longrightarrow>
                 tail = [] \<and> status sf = stF
               \<and> res = Inr (Failure (create_error_response rid
                                       ''Timeout in step interpretation'' stF)))
           \<and> (\<forall>e'. r = Some e' \<longrightarrow>
                 (\<exists>r2. tail = [Transition (status sf),
                           Set (''pft:processing:'' @ rid) (StatusJson (to_dict (status sf))) r2]
                   \<and> error_message (status sf)
                       = Some (''Unexpected error in workflow: '' @ str_exc e')
                   \<and> res = (case r2 of
                              None \<Rightarrow> Inr (Failure (create_error_response rid
                                         (''Unexpected error in workflow: '' @ str_exc e')
                                         (status sf)))
                            | Some e'' \<Rightarrow> Inl e''))))"
proof -
  have timeouts: "map step_timeout workflow_steps = [60, 90, 60, 120, 30]"
    by (simp add: workflow_steps_def)
  have late: "wait_for rep 90 = Inl (AsyncioTimeoutError [])"
    using slow by (simp add: wait_for_def)
  have not_clean: False
    if tm: "list_all2 timely (take k workflow_steps) (invocations evs)"
      and ev: "Invoke INTERPRETATION ag m a rep \<in> set evs" for k evs
  proof -
    from clean_call_timely [OF tm ev] obtain step p where
      "step \<in> set workflow_steps" "step_stage step = INTERPRETATION"
      "wait_for rep (step_timeout step) = Inr p" by blast
    with late show False by (simp add: workflow_steps_timeout)
  qed
  from run have rest: "map fst (invocations (trace sf)) = [DATA_EXTRACTION, INTERPRETATION]
       \<and> map fst (stage_results (status sf)) = [''data_extraction'']
       \<and> stage (status sf) = FAILED
       \<and> (\<exists>pre stF r tail.
             trace sf = pre @ [Invoke INTERPRETATION ag m a rep, Transition stF,
                               Set (''pft:processing:'' @ rid) (StatusJson (to_dict stF)) r] @ tail
           \<and> stage stF = FAILED
           \<and> error_message stF = Some ''Timeout in step interpretation''
           \<and> (r = None \<longrightarrow>
                 tail = [] \<and> status sf = stF
               \<and> res = Inr (Failure (create_error_response rid
                                       ''Timeout in step interpretation'' stF)))
           \<and> (\<forall>e'. r = Some e' \<longrightarrow>
                 (\<exists>r2. tail = [Transition (status sf),
                           Set (''pft:processing:'' @ rid) (StatusJson (to_dict (status sf))) r2]
                   \<and> error_message (status sf)
                       = Some (''Unexpected error in workflow: '' @ str_exc e')
                   \<and> res = (case r2 of
                              None \<Rightarrow> Inr (Failure (create_error_response rid
                                         (''Unexpected error in workflow: '' @ str_exc e')
                                         (status sf)))
                            | Some e'' \<Rightarrow> Inl e''))))"
  proof (cases rule: process_pft_request_structure)
    case (completed evs cblk fin)
    from inv completed(1,5) have "Invoke INTERPRETATION ag m a rep \<in> set evs"
      by (auto dest: invoke_in_invocations)
    with not_clean [of "length workflow_steps" evs] completed(3) show ?thesis by simp
  next
    case (completion_failed evs cblk e r)
    from inv completion_failed(1,5) have "Invoke INTERPRETATION ag m a rep \<in> set evs"
      by (auto dest: invoke_in_invocations)
    with not_clean [of "length workflow_steps" evs] completion_failed(3) show ?thesis by simp
  next
    case (step_failed k evs blk e stF r tail)
    have tail: "invocations tail = []"
      using step_failed(10,11) by (rule tail_no_invocations)
    from inv step_failed(2) tail not_clean [OF step_failed(4)]
    have inblk: "Invoke INTERPRETATION ag m a rep \<in> set blk"
      by (auto dest: invoke_in_invocations)
    note fb = failing_block_invoked [OF step_failed(5) inblk]
    from fb(1) have "step_stage (workflow_steps ! k) = INTERPRETATION" by simp
    with step_failed(1) have k: "k = 1"
      by (simp only: workflow_steps_stage_index)
    have step: "workflow_steps ! 1 \<in> set workflow_steps" "step_stage (workflow_steps ! 1) = INTERPRETATION"
      by (simp_all add: workflow_steps_def)
    have "step_timeout (workflow_steps ! 1) = 90"
      by (simp add: workflow_steps_def)
    with fb(2) late k have e: "e = AsyncioTimeoutError []" by simp
    have msg: "step_error_msg (workflow_steps ! k) e = ''Timeout in step interpretation''"
      by (simp add: k e step_error_msg_def workflow_steps_def)
    from step_failed(4) have "map fst (invocations evs) = map step_stage (take k workflow_steps)"
      by (rule timely_stages)
    then have stages: "map fst (invocations evs) = [DATA_EXTRACTION]"
      by (simp add: k workflow_steps_def)
    have keys: "map fst (map returned (invocations evs)) = map (stage_value \<circ> fst) (invocations evs)"
      by (induction evs rule: invocations.induct) simp_all
    have c1: "map fst (invocations (trace sf)) = [DATA_EXTRACTION, INTERPRETATION]"
      using stages fb(3) tail by (simp add: step_failed(2))
    have c2: "map fst (stage_results (status sf)) = [''data_extraction'']"
      using stages by (simp add: step_failed(6) keys map_map [symmetric] del: map_map)
    have dec: "trace sf = (evs @ butlast blk) @ [Invoke INTERPRETATION ag m a rep, Transition stF,
                 Set (''pft:processing:'' @ rid) (StatusJson (to_dict stF)) r] @ tail"
      using step_failed(2) fb(5) by (metis append.assoc append_Cons append_Nil)
    have c4: "r = None \<longrightarrow> tail = [] \<and> status sf = stF
               \<and> res = Inr (Failure (create_error_response rid
                                       ''Timeout in step interpretation'' stF))"
      using step_failed(10) msg by simp
    have c5: "\<forall>e'. r = Some e' \<longrightarrow>
                 (\<exists>r2. tail = [Transition (status sf),
                           Set (''pft:processing:'' @ rid) (StatusJson (to_dict (status sf))) r2]
                   \<and> error_message (status sf)
                       = Some (''Unexpected error in workflow: '' @ str_exc e')
                   \<and> res = (case r2 of
                              None \<Rightarrow> Inr (Failure (create_error_response rid
                                         (''Unexpected error in workflow: '' @ str_exc e')
                                         (status sf)))
                            | Some e'' \<Rightarrow> Inl e''))"
      using step_failed(11) by blast
    have err: "error_message stF = Some ''Timeout in step interpretation''"
      using step_failed(8) msg by simp
    show ?thesis
      apply (intro conjI c1 c2 step_failed(9))
      apply (rule exI [of _ "evs @ butlast blk"], rule exI [of _ stF], rule exI [of _ r],
          rule exI [of _ tail])
      apply (intro conjI dec step_failed(7) err c4 c5)
      done
  qed
  with timeouts show ?thesis by simp
qed

theorem interpretation_timeout_witness:
  "Invoke INTERPRETATION interpreter ''interpret_pft_results''
     (InterpretArgs (JDict []) (JDict []) (JDict []) [(''age'', JInt 40)] [])
     \<lparr> elapsed = 91, reply = Inr [(''by'', JStr ''interpret_pft_results'')] \<rparr>
     \<in> set (trace (snd (sample_run slow_interpreter_env)))
   \<and> map fst (invocations (trace (snd (sample_run slow_interpreter_env))))
       = [DATA_EXTRACTION, INTERPRETATION]
   \<and> map fst (stage_results (status (snd (sample_run slow_interpreter_env))))
       = [''data_extraction'']
   \<and> stage (status (snd (sample_run slow_interpreter_env))) = FAILED"
proof -
  have run: "process_pft_request slow_interpreter_env ''req-1'' ''FVC: 3.5'' ''txt''
               [(''age'', JInt 40)] None ''routine'' None 0
             = (fst (sample_run slow_interpreter_env), snd (sample_run slow_interpreter_env))"
    by (simp add: sample_run_def)
  have inv: "Invoke INTERPRETATION interpreter ''interpret_pft_results''
     (InterpretArgs (JDict []) (JDict []) (JDict []) [(''age'', JInt 40)] [])
     \<lparr> elapsed = 91, reply = Inr [(''by'', JStr ''interpret_pft_results'')] \<rparr>
     \<in> set (trace (snd (sample_run slow_interpreter_env)))"
    by (simp add: sample_run_def slow_interpreter_env_def run_defs)
  have slow: "90 < elapsed \<lparr> elapsed = 91, reply = Inr [(''by'', JStr ''interpret_pft_results'')] \<rparr>"
    by simp
  show ?thesis
    using inv interpretation_timeout_fails_workflow [OF run inv slow] by blast
qed

text \<open>
  The claim of C2 as stated fails: when the interpreter needs 91 seconds and the store
  then refuses the failed snapshot (in the inner and in the outer handler), the exception
  of the store leaves \<^verbatim>\<open>process_pft_request\<close> and no envelope is returned.
\<close>

theorem interpretation_timeout_store_fails_counterexample:
  "run_summary (sample_run slow_interpreter_store_fails_env) =
     (None,
      [(DATA_EXTRACTION, \<lparr> elapsed = 1, reply = Inr [(''by'', JStr ''process_file'')] \<rparr>),
       (INTERPRETATION, \<lparr> elapsed = 91, reply = Inr [(''by'', JStr ''interpret_pft_results'')] \<rparr>)])"
  by (simp add: sample_run_def slow_interpreter_store_fails_env_def run_summary_def
      envelope_status_def run_defs)

section \<open>An agent that raises\<close>




section \<open>A gateway call that raises while a stage is announced\<close>

lemma step_error_msg_stage:
  "step_stage step = step_stage step' \<Longrightarrow> step_error_msg step e = step_error_msg step' e"
  by (cases e) (simp_all add: step_error_msg_def)

lemma workflow_steps_stage_value:
  assumes "step \<in> set workflow_steps"
  shows "stage_value (step_stage step) \<noteq> ''completed''"
    and "stage_value (step_stage step) \<noteq> ''failed''"
  using assms by (auto simp: workflow_steps_def)

lemma not_invoked_before:
  assumes "distinct (map step_stage steps)" "k < length steps"
  shows "step_stage (steps ! k) \<notin> set (map step_stage (take k steps))"
proof -
  have "steps = take k steps @ steps ! k # drop (Suc k) steps"
    using assms(2) by (rule id_take_nth_drop)
  then have "map step_stage steps
      = map step_stage (take k steps) @ step_stage (steps ! k) # map step_stage (drop (Suc k) steps)"
    by (metis list.simps(9) map_append)
  with assms(1) show ?thesis
    by (metis distinct_append distinct.simps(2) disjoint_insert(1) list.simps(15) Int_commute)
qed

text \<open>
  C10, as the code has it. Suppose that in a run a call to \<^verbatim>\<open>publish\<close>, to \<^verbatim>\<open>set\<close> or to
  the progress callback raises \<open>e\<close> while it is handed the snapshot of a stage of the
  registry. Then the agent of that stage is never called, nothing is called after the
  failing event, the workflow does not complete, and the failing event is followed at
  once by the transition to \<open>FAILED\<close> with the message of the inner handler for that
  stage and \<open>e\<close> (\<^verbatim>\<open>Error in step <stage>: <e>\<close>, or \<^verbatim>\<open>Timeout in step <stage>\<close> for
  a timeout error) and by the write of that snapshot. If this write returns, the run ends
  there and the failure envelope with that message is returned. If it raises \<open>e'\<close>, the
  outer handler fails the status again with \<^verbatim>\<open>Unexpected error in workflow: <e'>\<close> and
  writes it: the envelope with this second message is returned if that write returns,
  and otherwise its exception leaves \<^verbatim>\<open>process_pft_request\<close>.
\<close>

theorem gateway_error_during_transition:
  assumes run: "process_pft_request env rid fc ft dem hist prio cb w = (res, sf)"
      and ev: "ev \<in> set (trace sf)"
      and exc: "failure_of ev = Some e"
      and snap: "snapshot ev = Some d"
      and stg: "d_stage d = stage_value (step_stage step)"
      and step: "step \<in> set workflow_steps"
  shows "step_stage step \<notin> fst ` set (invocations (trace sf))
       \<and> stage (status sf) = FAILED
       \<and> (\<forall>fin. res \<noteq> Inr (Success fin))
       \<and> (\<exists>pre stF r tail.
             trace sf = pre @ [ev, Transition stF,
                               Set (''pft:processing:'' @ rid) (StatusJson (to_dict stF)) r] @ tail
           \<and> invocations tail = []
           \<and> stage stF = FAILED
           \<and> error_message stF = Some (step_error_msg step e)
           \<and> (r = None \<longrightarrow>
                 tail = [] \<and> status sf = stF
               \<and> res = Inr (Failure (create_error_response rid (step_error_msg step e) stF)))
           \<and> (\<forall>e'. r = Some e' \<longrightarrow>
                 (\<exists>r2. tail = [Transition (status sf),
                           Set (''pft:processing:'' @ rid) (StatusJson (to_dict (status sf))) r2]
                   \<and> error_message (status sf)
                       = Some (''Unexpected error in workflow: '' @ str_exc e')
                   \<and> res = (case r2 of
                              None \<Rightarrow> Inr (Failure (create_error_response rid
                                         (''Unexpected error in workflow: '' @ str_exc e')
                                         (status sf)))
                            | Some e'' \<Rightarrow> Inl e''))))"
proof -
  have rs: "raised ev" using exc by (simp add: raised_failure_of)
  note sv = workflow_steps_stage_value [OF step]
  have handler: False
    if "ev = Set k (StatusJson (to_dict st)) r" "stage st = FAILED" for k st r
  proof -
    from that(1) snap have "d = to_dict st" by simp
    then have "d_stage d = ''failed''" using that(2) by simp
    with stg sv(2) show False by simp
  qed
  have transition: False if "ev = Transition st" for st
    using that exc by simp
  from run show ?thesis
  proof (cases rule: process_pft_request_structure)
    case (completed evs cblk fin)
    with ev rs show ?thesis by auto
  next
    case (completion_failed evs cblk e0 r)
    from ev completion_failed(1) consider "ev \<in> set evs" | "ev \<in> set cblk"
      | "ev = Transition (status sf)"
      | "ev = Set (''pft:processing:'' @ rid) (StatusJson (to_dict (status sf))) r"
      by auto
    then show ?thesis
    proof cases
      case 1
      with completion_failed(2) rs show ?thesis by blast
    next
      case 2
      with completion_failed(6) snap stg sv show ?thesis by auto
    next
      case 3
      then show ?thesis using transition by blast
    next
      case 4
      then show ?thesis using handler completion_failed(8) by blast
    qed
  next
    case (step_failed k evs blk e0 stF r tail)
    have tail: "invocations tail = []"
      using step_failed(10,11) by (rule tail_no_invocations)
    have intail: False if "ev \<in> set tail"
    proof (cases r)
      case None
      with step_failed(10) that show False by simp
    next
      case (Some e')
      from step_failed(11) [OF Some] that
      have "ev = Transition (status sf) \<or> (\<exists>r2. ev = Set (''pft:processing:'' @ rid)
              (StatusJson (to_dict (status sf))) r2)"
        by auto
      then show False using transition handler step_failed(9) by blast
    qed
    from ev step_failed(2) consider "ev \<in> set evs" | "ev \<in> set blk"
      | "ev = Transition stF"
      | "ev = Set (''pft:processing:'' @ rid) (StatusJson (to_dict stF)) r"
      | "ev \<in> set tail"
      by auto
    then have inblk: "ev \<in> set blk"
    proof cases
      case 1
      with step_failed(3) rs show ?thesis by blast
    next
      case 2
      then show ?thesis .
    next
      case 3
      then show ?thesis using transition by blast
    next
      case 4
      then show ?thesis using handler step_failed(7) by blast
    next
      case 5
      then show ?thesis using intail by blast
    qed
    note fb = failing_block_raised [OF step_failed(5) inblk rs]
    from fb(2) exc have e: "e0 = e" by simp
    from fb(4) snap stg have same: "step_stage (workflow_steps ! k) = step_stage step"
      by simp
    have msg: "step_error_msg (workflow_steps ! k) e0 = step_error_msg step e"
      unfolding e using same by (rule step_error_msg_stage)
    have calls: "invocations (trace sf) = invocations evs"
      using fb(3) tail by (simp add: step_failed(2))
    have "step_stage (workflow_steps ! k) \<notin> set (map step_stage (take k workflow_steps))"
      using workflow_steps_distinct step_failed(1) by (rule not_invoked_before)
    then have c1: "step_stage step \<notin> fst ` set (invocations (trace sf))"
      using timely_stages [OF step_failed(4)] same
      by (simp add: calls del: set_map add: set_map [symmetric])
    have c3: "\<forall>fin. res \<noteq> Inr (Success fin)"
    proof (cases r)
      case None
      from step_failed(10) [OF None] show ?thesis by simp
    next
      case (Some e')
      from step_failed(11) [OF Some] show ?thesis by (auto split: option.splits)
    qed
    have dec: "trace sf = (evs @ butlast blk) @ [ev, Transition stF,
                 Set (''pft:processing:'' @ rid) (StatusJson (to_dict stF)) r] @ tail"
      using step_failed(2) fb(1) by (metis append.assoc append_Cons append_Nil)
    have err: "error_message stF = Some (step_error_msg step e)"
      using step_failed(8) msg by simp
    have c5: "r = None \<longrightarrow> tail = [] \<and> status sf = stF
               \<and> res = Inr (Failure (create_error_response rid (step_error_msg step e) stF))"
      using step_failed(10) msg by simp
    have c6: "\<forall>e'. r = Some e' \<longrightarrow>
                 (\<exists>r2. tail = [Transition (status sf),
                           Set (''pft:processing:'' @ rid) (StatusJson (to_dict (status sf))) r2]
                   \<and> error_message (status sf)
                       = Some (''Unexpected error in workflow: '' @ str_exc e')
                   \<and> res = (case r2 of
                              None \<Rightarrow> Inr (Failure (create_error_response rid
                                         (''Unexpected error in workflow: '' @ str_exc e')
                                         (status sf)))
                            | Some e'' \<Rightarrow> Inl e''))"
      using step_failed(11) by blast
    show ?thesis
      apply (intro conjI c1 step_failed(9) c3)
      apply (rule exI [of _ "evs @ butlast blk"], rule exI [of _ stF], rule exI [of _ r],
          rule exI [of _ tail])
      apply (intro conjI dec tail step_failed(7) err c5 c6)
      done
  qed
qed

theorem gateway_error_during_transition_witness:
  "Publish ''pft:progress:req-1''
     \<lparr> d_request_id = ''req-1'', d_stage = ''data_extraction'', d_progress = 20,
       d_current_step = ''Extracting and standardizing PFT data'', d_started_at = 0,
       d_completed_at = None, d_processing_time = 0, d_error_message = None \<rparr>
     (Some (OtherException ''channel closed''))
     \<in> set (trace (snd (sample_run early_publish_env)))
   \<and> step_stage (hd workflow_steps)
       \<notin> fst ` set (invocations (trace (snd (sample_run early_publish_env))))
   \<and> stage (status (snd (sample_run early_publish_env))) = FAILED"
proof -
  define d where "d = \<lparr> d_request_id = ''req-1'', d_stage = ''data_extraction'', d_progress = 20,
       d_current_step = ''Extracting and standardizing PFT data'', d_started_at = 0,
       d_completed_at = None, d_processing_time = 0, d_error_message = None \<rparr>"
  define ev where "ev = Publish ''pft:progress:req-1'' d (Some (OtherException ''channel closed''))"
  have run: "process_pft_request early_publish_env ''req-1'' ''FVC: 3.5'' ''txt''
               [(''age'', JInt 40)] None ''routine'' None 0
             = (fst (sample_run early_publish_env), snd (sample_run early_publish_env))"
    by (simp add: sample_run_def)
  have mem: "ev \<in> set (trace (snd (sample_run early_publish_env)))"
    by (simp add: ev_def d_def sample_run_def early_publish_env_def run_defs)
  have exc: "failure_of ev = Some (OtherException ''channel closed'')"
    and snap: "snapshot ev = Some d"
    by (simp_all add: ev_def)
  have stg: "d_stage d = stage_value (step_stage (hd workflow_steps))"
    and step: "hd workflow_steps \<in> set workflow_steps"
    by (simp_all add: d_def workflow_steps_def)
  note concl = gateway_error_during_transition [OF run mem exc snap stg step]
  show ?thesis
    using mem concl [THEN conjunct1] concl [THEN conjunct2, THEN conjunct1]
    unfolding ev_def d_def by (intro conjI)
qed

text \<open>
  The claim of C10 as stated fails: when every write to the store raises, the write of the
  first snapshot raises, so do the writes of both handlers, and the invocation ends with
  the exception of the store instead of a failure envelope; no agent is called.
\<close>

theorem store_down_no_envelope_counterexample:
  "run_summary (sample_run store_down_env) = (None, [])"
  by (simp add: sample_run_def store_down_env_def run_summary_def envelope_status_def run_defs)

end
